theory Spec2Isabelle
  imports Complex_Main "HOL-Library.Sublist"
begin

section \<open>The mini bank of \<^verbatim>\<open>src/Bank.cpp\<close>\<close>

text \<open>
  The ledger of \<^verbatim>\<open>Bank.cpp\<close>: accounts with a balance and a history of their own, a
  bank that owns the accounts and a global log, and an undo that pops the tail of the log.

  Amounts are \<^verbatim>\<open>double\<close> in the source.  The definitions below keep the type of amounts
  a parameter \<open>'a\<close> and use only the operations the source uses on it (\<open>0\<close>, \<open>+\<close>, \<open>-\<close>,
  \<open>\<le>\<close>, \<open><\<close> and \<open>==\<close>), with no law assumed of them.  A statement about a bank of the
  sort \<open>{zero, ord, plus, minus}\<close> therefore follows from the control flow alone, and holds
  of the rounding operations of the machine.  The type \<open>double\<close> below is a model of these
  operations (binary64, round to nearest, ties to even, with the infinities and NaN): the
  statements that a claim fails on the code are evaluated at it.  A statement that needs
  laws of arithmetic (a sum over a history, the conditions for success in the words of the
  specification) is about a bank of the sort \<open>linordered_ab_group_add\<close>, that is, exact
  ordered arithmetic, and is evaluated at the type \<open>real\<close>.  Where a theorem has both kinds
  of parts, the banks of the first kind are named \<open>b\<close> and those of the second kind \<open>c\<close>.

  Names follow the source.  The fields carry a prefix, since \<open>note\<close> and \<open>next\<close> are
  keywords and \<open>id\<close>, \<open>log\<close> and \<open>last\<close> are constants of the library: \<open>acc, type, amt,
  note\<close> of \<open>Tx\<close> are \<open>tx_acc, tx_type, tx_amt, tx_note\<close>; \<open>id\<close> of \<open>Account\<close> is
  \<open>acc_id\<close>; \<open>a, log, next\<close> of \<open>Bank\<close> are \<open>bank_a, bank_log, bank_next\<close>.  A member
  function \<open>C::f\<close> is \<open>C_f\<close>.  The field \<open>when\<close> of \<open>Tx\<close> (the wall clock at
  construction) is read by \<open>Account::print\<close> only and is left out.
\<close>

subsection \<open>Errors\<close>

text \<open>
  \<^verbatim>\<open>struct BankError : runtime_error\<close>, \<^verbatim>\<open>struct NotFound : BankError\<close>,
  \<^verbatim>\<open>struct Insufficient : BankError\<close>; each carries the message \<open>what()\<close> returns.
\<close>

datatype error = BankError string | NotFound string | Insufficient string

fun what :: "error \<Rightarrow> string" where
  "what (BankError m) = m"
| "what (NotFound m) = m"
| "what (Insufficient m) = m"

subsection \<open>Transactions and accounts\<close>

datatype TxType = Deposit | Withdraw | TransferIn | TransferOut

record 'a Tx =
  tx_acc :: int
  tx_type :: TxType
  tx_amt :: 'a
  tx_note :: string

definition mk_Tx :: "int \<Rightarrow> TxType \<Rightarrow> 'a \<Rightarrow> string \<Rightarrow> 'a Tx" where
  "mk_Tx i t v n = \<lparr>tx_acc = i, tx_type = t, tx_amt = v, tx_note = n\<rparr>"

record 'a Account =
  acc_id :: int
  owner :: string
  bal :: 'a
  hist :: "'a Tx list"

text \<open>
  The constructor \<^verbatim>\<open>Account(int i, string o, double init)\<close>: the balance is \<open>init\<close>
  whatever its sign; a positive \<open>init\<close> is recorded as a deposit.
\<close>

definition mk_Account :: "int \<Rightarrow> string \<Rightarrow> 'a::{zero,ord} \<Rightarrow> 'a Account" where
  "mk_Account i ow init =
     \<lparr>acc_id = i, owner = ow, bal = init,
      hist = (if 0 < init then [mk_Tx i Deposit init ''initial''] else [])\<rparr>"

text \<open>
  \<^verbatim>\<open>Account::deposit\<close> and \<^verbatim>\<open>Account::withdraw\<close> throw before they change anything,
  so a failed call is \<open>Inl\<close> of the exception and the account is the one passed in.
  \<^verbatim>\<open>struct Checking : Account\<close>, the only kind of account the bank creates, overrides
  neither of them, so every virtual call is one of these two.
\<close>

definition Account_deposit ::
  "'a::{zero,ord,plus} Account \<Rightarrow> 'a \<Rightarrow> string \<Rightarrow> error + 'a Account" where
  "Account_deposit A v n =
     (if v \<le> 0 then Inl (BankError ''deposit>0'')
      else Inr (A\<lparr>bal := bal A + v, hist := hist A @ [mk_Tx (acc_id A) Deposit v n]\<rparr>))"

definition Account_withdraw ::
  "'a::{zero,ord,minus} Account \<Rightarrow> 'a \<Rightarrow> string \<Rightarrow> error + 'a Account" where
  "Account_withdraw A v n =
     (if v \<le> 0 then Inl (BankError ''withdraw>0'')
      else if bal A < v then Inl (Insufficient ''insufficient'')
      else Inr (A\<lparr>bal := bal A - v, hist := hist A @ [mk_Tx (acc_id A) Withdraw v n]\<rparr>))"

subsection \<open>Decimal rendering of an account id\<close>

text \<open>\<^verbatim>\<open>std::to_string(int)\<close>: decimal digits, a minus sign for a negative number.\<close>

definition digit_char :: "nat \<Rightarrow> char" where
  "digit_char d = char_of (48 + d)"

function digits :: "nat \<Rightarrow> string" where
  "digits n = (if n < 10 then [digit_char n] else digits (n div 10) @ [digit_char (n mod 10)])"
  by pat_completeness auto
termination
  by (relation "measure (\<lambda>n. n)") auto

declare digits.simps [simp del]

definition to_string :: "int \<Rightarrow> string" where
  "to_string i = (if i < 0 then CHR ''-'' # digits (nat (- i)) else digits (nat i))"

subsection \<open>The bank\<close>

text \<open>
  \<^verbatim>\<open>unordered_map<int, unique_ptr<Account>> a\<close> is a map from ids to accounts (each
  account is owned by its entry, so there is no aliasing); \<^verbatim>\<open>vector<Tx> log\<close> is a list
  with the newest entry last; \<^verbatim>\<open>int next\<close> is an unbounded integer (the counter would
  have to pass \<open>2^31 - 1\<close> accounts to overflow, which is undefined behaviour in C++).
\<close>

record 'a Bank =
  bank_a :: "int \<rightharpoonup> 'a Account"
  bank_log :: "'a Tx list"
  bank_next :: int

text \<open>The bank \<^verbatim>\<open>main\<close> starts from: no account, an empty log, \<open>next = 1\<close>.\<close>

definition Bank_init :: "'a Bank" where
  "Bank_init = \<lparr>bank_a = Map.empty, bank_log = [], bank_next = 1\<rparr>"

text \<open>
  An operation of the bank returns what the call returns (\<open>Inl\<close> the exception thrown)
  together with the bank as the call leaves it: a call that throws after it has changed
  an account returns the changed bank.
\<close>

definition Bank_createChecking ::
  "'a::{zero,ord} Bank \<Rightarrow> string \<Rightarrow> 'a \<Rightarrow> int \<times> 'a Bank" where
  "Bank_createChecking b ow init =
     (let i = bank_next b in
      (i, b\<lparr>bank_a := (bank_a b)(i \<mapsto> mk_Account i ow init),
             bank_log := (if 0 < init then bank_log b @ [mk_Tx i Deposit init ''initial'']
                          else bank_log b),
             bank_next := i + 1\<rparr>))"

definition Bank_acc :: "'a Bank \<Rightarrow> int \<Rightarrow> error + 'a Account" where
  "Bank_acc b i =
     (case bank_a b i of None \<Rightarrow> Inl (NotFound ''no account'') | Some A \<Rightarrow> Inr A)"

definition Bank_deposit ::
  "'a::{zero,ord,plus} Bank \<Rightarrow> int \<Rightarrow> 'a \<Rightarrow> string \<Rightarrow> (error + unit) \<times> 'a Bank" where
  "Bank_deposit b i v n =
     (case Bank_acc b i of
        Inl e \<Rightarrow> (Inl e, b)
      | Inr A \<Rightarrow>
          (case Account_deposit A v n of
             Inl e \<Rightarrow> (Inl e, b)
           | Inr A' \<Rightarrow>
               (Inr (), b\<lparr>bank_a := (bank_a b)(i \<mapsto> A'),
                          bank_log := bank_log b @ [mk_Tx i Deposit v n]\<rparr>)))"

definition Bank_withdraw ::
  "'a::{zero,ord,minus} Bank \<Rightarrow> int \<Rightarrow> 'a \<Rightarrow> string \<Rightarrow> (error + unit) \<times> 'a Bank" where
  "Bank_withdraw b i v n =
     (case Bank_acc b i of
        Inl e \<Rightarrow> (Inl e, b)
      | Inr A \<Rightarrow>
          (case Account_withdraw A v n of
             Inl e \<Rightarrow> (Inl e, b)
           | Inr A' \<Rightarrow>
               (Inr (), b\<lparr>bank_a := (bank_a b)(i \<mapsto> A'),
                          bank_log := bank_log b @ [mk_Tx i Withdraw v n]\<rparr>)))"

text \<open>
  \<^verbatim>\<open>Bank::transfer\<close>: the withdrawal is applied to the source account before the
  destination is looked up, so the bank returned with a later exception is \<open>b1\<close>, the bank
  after the withdrawal.
\<close>

definition transfer_note :: "string \<Rightarrow> int \<Rightarrow> string \<Rightarrow> string" where
  "transfer_note dir i n = dir @ to_string i @ (if n \<noteq> [] then '': '' @ n else [])"

definition Bank_transfer ::
  "'a::{zero,ord,plus,minus} Bank \<Rightarrow> int \<Rightarrow> int \<Rightarrow> 'a \<Rightarrow> string \<Rightarrow> (error + unit) \<times> 'a Bank" where
  "Bank_transfer b from to v n =
     (if from = to then (Inl (BankError ''same account''), b)
      else
        (case Bank_acc b from of
           Inl e \<Rightarrow> (Inl e, b)
         | Inr A \<Rightarrow>
             (case Account_withdraw A v (transfer_note ''to '' to n) of
                Inl e \<Rightarrow> (Inl e, b)
              | Inr A' \<Rightarrow>
                  (let b1 = b\<lparr>bank_a := (bank_a b)(from \<mapsto> A')\<rparr> in
                   (case Bank_acc b1 to of
                      Inl e \<Rightarrow> (Inl e, b1)
                    | Inr B \<Rightarrow>
                        (case Account_deposit B v (transfer_note ''from '' from n) of
                           Inl e \<Rightarrow> (Inl e, b1)
                         | Inr B' \<Rightarrow>
                             (Inr (),
                              b1\<lparr>bank_a := (bank_a b1)(to \<mapsto> B'),
                                 bank_log := bank_log b1 @
                                   [mk_Tx from TransferOut v (''to '' @ to_string to),
                                    mk_Tx to TransferIn v (''from '' @ to_string from)]\<rparr>)))))))"

text \<open>
  \<^verbatim>\<open>bool Bank::undo(string& err)\<close>: \<open>Inr ()\<close> is the result \<open>true\<close>; \<open>Inl m\<close> is the
  result \<open>false\<close> with \<open>err\<close> set to \<open>m\<close>.  Both \<open>try\<close> blocks catch every exception of the
  bank and return \<open>false\<close>; the bank keeps whatever the block had changed before the throw.
  \<open>undo_pair\<close> is the first \<open>try\<close> block (the reversal of a transfer pair), \<open>undo_single\<close>
  the second (the reversal of the last entry), and \<open>Bank_undo\<close> the tests that choose
  between them; \<open>log.pop_back()\<close> is \<open>butlast\<close>.
\<close>

text \<open>
  The test \<^verbatim>\<open>prev.amt == last.amt\<close> of \<open>undo\<close>.  On \<^verbatim>\<open>double\<close>, \<open>x == y\<close> holds exactly
  when \<open>x <= y\<close> and \<open>y <= x\<close> both hold: it is false when either side is NaN and true of
  two zeros of different sign.  It is written with the order the amounts already have,
  since the equality of HOL would hold of NaN and NaN.  Of an exact order it is equality.
\<close>

definition same_amount :: "'a::ord \<Rightarrow> 'a \<Rightarrow> bool" where
  "same_amount x y \<longleftrightarrow> x \<le> y \<and> y \<le> x"

definition undo_single :: "'a::{zero,ord,plus,minus} Bank \<Rightarrow> 'a Tx \<Rightarrow> (string + unit) \<times> 'a Bank" where
  "undo_single b lastTx =
     (case Bank_acc b (tx_acc lastTx) of
        Inl e \<Rightarrow> (Inl (what e), b)
      | Inr A \<Rightarrow>
          (case (if tx_type lastTx = Deposit \<or> tx_type lastTx = TransferIn
                 then Account_withdraw A (tx_amt lastTx) ''undo''
                 else Account_deposit A (tx_amt lastTx) ''undo'') of
             Inl e \<Rightarrow> (Inl (what e), b)
           | Inr A' \<Rightarrow>
               (Inr (), b\<lparr>bank_a := (bank_a b)(tx_acc lastTx \<mapsto> A'),
                          bank_log := butlast (bank_log b)\<rparr>)))"

definition undo_pair ::
  "'a::{zero,ord,plus,minus} Bank \<Rightarrow> 'a Tx \<Rightarrow> 'a Tx \<Rightarrow> (string + unit) \<times> 'a Bank" where
  "undo_pair b prevTx lastTx =
     (let to = tx_acc lastTx; from = tx_acc prevTx; v = tx_amt lastTx in
      (case Bank_acc b to of
         Inl e \<Rightarrow> (Inl (what e), b)
       | Inr T \<Rightarrow>
           (case Account_withdraw T v ''undo transfer'' of
              Inl e \<Rightarrow> (Inl (what e), b)
            | Inr T' \<Rightarrow>
                (let b1 = b\<lparr>bank_a := (bank_a b)(to \<mapsto> T')\<rparr> in
                 (case Bank_acc b1 from of
                    Inl e \<Rightarrow> (Inl (what e), b1)
                  | Inr F \<Rightarrow>
                      (case Account_deposit F v ''undo transfer'' of
                         Inl e \<Rightarrow> (Inl (what e), b1)
                       | Inr F' \<Rightarrow>
                           (Inr (),
                            b1\<lparr>bank_a := (bank_a b1)(from \<mapsto> F'),
                               bank_log := butlast (butlast (bank_log b1))\<rparr>)))))))"

definition Bank_undo :: "'a::{zero,ord,plus,minus} Bank \<Rightarrow> (string + unit) \<times> 'a Bank" where
  "Bank_undo b =
     (if bank_log b = [] then (Inl ''nothing to undo'', b)
      else
        (let lastTx = last (bank_log b) in
         if tx_type lastTx = TransferIn \<and> 2 \<le> length (bank_log b)
            \<and> tx_type (bank_log b ! (length (bank_log b) - 2)) = TransferOut
            \<and> same_amount (tx_amt (bank_log b ! (length (bank_log b) - 2))) (tx_amt lastTx)
         then undo_pair b (bank_log b ! (length (bank_log b) - 2)) lastTx
         else undo_single b lastTx))"

subsection \<open>Runs of the bank\<close>

text \<open>
  The calls \<^verbatim>\<open>main\<close> makes on the bank, one per menu command that can change it (the
  commands that list and print change nothing).  \<^verbatim>\<open>main\<close> catches every exception and
  goes on with the bank as the failed call left it, so the state after a call is the second
  component of the operation's result whether the call threw or not.
\<close>

datatype 'a call =
    Create string 'a
  | Dep int 'a string
  | Wdr int 'a string
  | Xfer int int 'a string
  | Undo

fun exec :: "'a::{zero,ord,plus,minus} Bank \<Rightarrow> 'a call \<Rightarrow> 'a Bank" where
  "exec b (Create ow init) = snd (Bank_createChecking b ow init)"
| "exec b (Dep i v n) = snd (Bank_deposit b i v n)"
| "exec b (Wdr i v n) = snd (Bank_withdraw b i v n)"
| "exec b (Xfer from to v n) = snd (Bank_transfer b from to v n)"
| "exec b Undo = snd (Bank_undo b)"

definition run :: "'a::{zero,ord,plus,minus} Bank \<Rightarrow> 'a call list \<Rightarrow> 'a Bank" where
  "run b cs = foldl exec b cs"

text \<open>
  \<open>reachable_by ok b\<close>: the bank \<open>b\<close> is what some sequence of calls, each accepted by
  \<open>ok\<close>, makes of the initial bank.  \<open>reachable\<close> accepts every call.
\<close>

inductive reachable_by :: "('a call \<Rightarrow> bool) \<Rightarrow> 'a::{zero,ord,plus,minus} Bank \<Rightarrow> bool"
  for ok :: "'a call \<Rightarrow> bool" where
  init: "reachable_by ok Bank_init"
| step: "reachable_by ok b \<Longrightarrow> ok c \<Longrightarrow> reachable_by ok (exec b c)"

definition reachable :: "'a::{zero,ord,plus,minus} Bank \<Rightarrow> bool" where
  "reachable = reachable_by (\<lambda>c. True)"

fun valid_initial :: "'a::{zero,ord} call \<Rightarrow> bool" where
  "valid_initial (Create ow init) = (0 \<le> init)"
| "valid_initial c = True"

subsection \<open>Notions of the specification\<close>

text \<open>
  The signed sum of a history: the amounts of \<open>Deposit\<close> and \<open>TransferIn\<close> entries added,
  those of \<open>Withdraw\<close> and \<open>TransferOut\<close> entries subtracted, oldest entry first.
\<close>

definition increases :: "TxType \<Rightarrow> bool" where
  "increases t \<longleftrightarrow> t = Deposit \<or> t = TransferIn"

definition signed_sum :: "'a::{zero,plus,minus} Tx list \<Rightarrow> 'a" where
  "signed_sum ts =
     foldl (\<lambda>s t. if increases (tx_type t) then s + tx_amt t else s - tx_amt t) 0 ts"

text \<open>
  A matched transfer pair: a \<open>TransferOut\<close> followed by a \<open>TransferIn\<close> of the same amount,
  as \<open>undo\<close> tests it.
\<close>

definition is_transfer_pair :: "'a::ord Tx \<Rightarrow> 'a Tx \<Rightarrow> bool" where
  "is_transfer_pair prevTx lastTx \<longleftrightarrow>
     tx_type prevTx = TransferOut \<and> tx_type lastTx = TransferIn
     \<and> same_amount (tx_amt prevTx) (tx_amt lastTx)"

text \<open>The balance of account \<open>i\<close>, when the bank has it.\<close>

definition balance_of :: "'a Bank \<Rightarrow> int \<Rightarrow> 'a option" where
  "balance_of b i = map_option bal (bank_a b i)"

definition history_of :: "'a Bank \<Rightarrow> int \<Rightarrow> 'a Tx list option" where
  "history_of b i = map_option hist (bank_a b i)"

text \<open>
  Two properties of the global log: every entry names an account of the bank, and every
  entry has a positive amount.
\<close>

definition log_accounts_present :: "'a Bank \<Rightarrow> bool" where
  "log_accounts_present b \<longleftrightarrow> (\<forall>t \<in> set (bank_log b). bank_a b (tx_acc t) \<noteq> None)"

definition log_positive :: "'a::{zero,ord} Bank \<Rightarrow> bool" where
  "log_positive b \<longleftrightarrow> (\<forall>t \<in> set (bank_log b). 0 < tx_amt t)"



text \<open>
  The invariant of an account: the balance is not negative and is the signed sum of the
  account's own history.
\<close>

definition account_ok :: "'a::{zero,ord,plus,minus} Account \<Rightarrow> bool" where
  "account_ok A \<longleftrightarrow> 0 \<le> bal A \<and> bal A = signed_sum (hist A)"

definition accounts_ok :: "'a::{zero,ord,plus,minus} Bank \<Rightarrow> bool" where
  "accounts_ok b \<longleftrightarrow> (\<forall>i A. bank_a b i = Some A \<longrightarrow> account_ok A)"

text \<open>Entries that an undo has written to a history carry the note of the undo.\<close>

definition undo_tagged :: "'a Tx list \<Rightarrow> bool" where
  "undo_tagged hs \<longleftrightarrow> (\<forall>t \<in> set hs. tx_note t = ''undo'' \<or> tx_note t = ''undo transfer'')"

subsection \<open>The amounts of the machine\<close>

text \<open>
  A model of \<^verbatim>\<open>double\<close> (IEEE 754 binary64) with the operations the bank uses.  A finite
  number is \<open>Fin m e\<close>, the number \<open>m * 2^e\<close>, kept with \<open>m\<close> odd, and zero is \<open>Fin 0 0\<close> (the
  sign of a zero is not kept: no operation of the bank reads it).  The sum of two finite
  numbers is computed exactly and then rounded to 53 significant bits, to the nearest number
  and to the even one of two nearest, with no exponent below \<open>-1074\<close> and with an infinity
  for a result of magnitude \<open>2^1024\<close> or more.  A difference is the sum with the negated
  number.  A comparison with NaN is false.
\<close>

datatype double = NaN | PInf | MInf | Fin int int

function norm_double :: "int \<Rightarrow> int \<Rightarrow> double" where
  "norm_double m e =
     (if m = 0 then Fin 0 0
      else if even m then norm_double (m div 2) (e + 1)
      else Fin m e)"
  by pat_completeness auto
termination
proof (relation "measure (\<lambda>(m, e). nat \<bar>m\<bar>)")
  show "wf (measure (\<lambda>(m, e). nat \<bar>m\<bar>))" by simp
next
  fix m e :: int
  assume "m \<noteq> 0" "even m"
  then have "\<bar>m div 2\<bar> < \<bar>m\<bar>" by presburger
  then show "((m div 2, e + 1), (m, e)) \<in> measure (\<lambda>(m, e). nat \<bar>m\<bar>)" by simp
qed

declare norm_double.simps [simp del]

text \<open>The number of bits of a positive integer, and the powers of two.\<close>

function bitlen :: "int \<Rightarrow> int" where
  "bitlen a = (if a \<le> 0 then 0 else 1 + bitlen (a div 2))"
  by pat_completeness auto
termination
  by (relation "measure nat") auto

declare bitlen.simps [simp del]

function pow2 :: "int \<Rightarrow> int" where
  "pow2 k = (if k \<le> 0 then 1 else 2 * pow2 (k - 1))"
  by pat_completeness auto
termination
  by (relation "measure nat") auto

declare pow2.simps [simp del]

text \<open>
  \<open>round_double m e\<close> is the \<^verbatim>\<open>double\<close> nearest to \<open>m * 2^e\<close>: the \<open>k\<close> lowest bits of
  \<open>\<bar>m\<bar>\<close> are dropped, the rest \<open>q0\<close> goes up by one when the dropped part \<open>r\<close> is more than
  half of \<open>2^k\<close>, or is the half and \<open>q0\<close> is odd.
\<close>

definition round_double :: "int \<Rightarrow> int \<Rightarrow> double" where
  "round_double m e =
     (let a = \<bar>m\<bar>;
          k = max (bitlen a - 53) (- 1074 - e);
          q = (if k \<le> 0 then a
               else (let d = pow2 k; q0 = a div d; r = a mod d; h = d div 2
                     in if h < r \<or> (r = h \<and> odd q0) then q0 + 1 else q0));
          e' = (if k \<le> 0 then e else e + k)
      in if 1024 < bitlen q + e' then (if m < 0 then MInf else PInf)
         else norm_double (if m < 0 then - q else q) e')"

fun dneg :: "double \<Rightarrow> double" where
  "dneg NaN = NaN"
| "dneg PInf = MInf"
| "dneg MInf = PInf"
| "dneg (Fin m e) = Fin (- m) e"

fun dadd :: "double \<Rightarrow> double \<Rightarrow> double" where
  "dadd NaN y = NaN"
| "dadd x NaN = NaN"
| "dadd PInf MInf = NaN"
| "dadd MInf PInf = NaN"
| "dadd PInf y = PInf"
| "dadd MInf y = MInf"
| "dadd x PInf = PInf"
| "dadd x MInf = MInf"
| "dadd (Fin m1 e1) (Fin m2 e2) =
     (let e = min e1 e2
      in round_double (m1 * pow2 (e1 - e) + m2 * pow2 (e2 - e)) e)"

fun dle :: "double \<Rightarrow> double \<Rightarrow> bool" where
  "dle NaN y = False"
| "dle x NaN = False"
| "dle MInf y = True"
| "dle x PInf = True"
| "dle PInf y = False"
| "dle x MInf = False"
| "dle (Fin m1 e1) (Fin m2 e2) =
     (let e = min e1 e2 in m1 * pow2 (e1 - e) \<le> m2 * pow2 (e2 - e))"

fun dlt :: "double \<Rightarrow> double \<Rightarrow> bool" where
  "dlt NaN y = False"
| "dlt x NaN = False"
| "dlt PInf y = False"
| "dlt x MInf = False"
| "dlt MInf y = True"
| "dlt x PInf = True"
| "dlt (Fin m1 e1) (Fin m2 e2) =
     (let e = min e1 e2 in m1 * pow2 (e1 - e) < m2 * pow2 (e2 - e))"

instantiation double :: "{zero, plus, minus, ord}"
begin

definition zero_double_def: "0 = Fin 0 0"

definition plus_double_def: "x + y = dadd x y"

definition minus_double_def: "x - y = dadd x (dneg y)"

definition less_eq_double_def: "x \<le> y \<longleftrightarrow> dle x y"

definition less_double_def: "x < y \<longleftrightarrow> dlt x y"

instance ..

end

text \<open>The \<^verbatim>\<open>double\<close> that a decimal integer of the input reads as.\<close>

definition double_of_int :: "int \<Rightarrow> double" where
  "double_of_int n = round_double n 0"

subsection \<open>Example banks\<close>

text \<open>
  The scenario of the specification: Alice is created with \<open>100\<close> (id \<open>1\<close>), Bob with \<open>0\<close>
  (id \<open>2\<close>).  All amounts of the examples are small integers, which \<^verbatim>\<open>double\<close> represents
  and adds exactly.
\<close>

definition bank_alice :: "real Bank" where
  "bank_alice = run Bank_init [Create ''Alice'' 100]"

definition bank_alice_bob :: "real Bank" where
  "bank_alice_bob = run Bank_init [Create ''Alice'' 100, Create ''Bob'' 0]"

text \<open>The bank after Alice has transferred \<open>40\<close> to Bob.\<close>

definition bank_transferred :: "real Bank" where
  "bank_transferred = run bank_alice_bob [Xfer 1 2 40 ''manual'']"

text \<open>
  Then Bob tries to transfer his \<open>40\<close> to the account \<open>3\<close>, which does not exist: the
  call throws after the withdrawal, so Bob's balance is \<open>0\<close> and the log still ends with
  the pair of Alice's transfer.
\<close>

definition bank_drained :: "real Bank" where
  "bank_drained = run bank_transferred [Xfer 2 3 40 ''manual'']"

text \<open>Alice's bank after a deposit of \<open>25\<close>, and after a withdrawal of \<open>30\<close>.\<close>

definition bank_deposited :: "real Bank" where
  "bank_deposited = run bank_alice [Dep 1 25 ''manual'']"

definition bank_withdrawn :: "real Bank" where
  "bank_withdrawn = run bank_alice [Wdr 1 30 ''manual'']"

text \<open>
  Banks of the machine's amounts.  Alice has \<open>10^17\<close> and Bob has \<open>1\<close>; next to \<open>10^17\<close> the
  nearest \<^verbatim>\<open>double\<close>s are 16 apart.
\<close>

definition dbank_big :: "double Bank" where
  "dbank_big = run Bank_init
     [Create ''Alice'' (double_of_int 100000000000000000), Create ''Bob'' (double_of_int 1)]"

definition dbank_big_transferred :: "double Bank" where
  "dbank_big_transferred = run dbank_big [Xfer 1 2 (double_of_int 100000000000000000) ''manual'']"

definition dbank_big_deposited :: "double Bank" where
  "dbank_big_deposited = run dbank_big [Dep 2 (double_of_int 100000000000000000) ''manual'']"

text \<open>The scenario of the specification at the machine's amounts.\<close>

definition dbank_alice_bob :: "double Bank" where
  "dbank_alice_bob = run Bank_init [Create ''Alice'' (double_of_int 100), Create ''Bob'' 0]"

definition dbank_transferred :: "double Bank" where
  "dbank_transferred = run dbank_alice_bob [Xfer 1 2 (double_of_int 40) ''manual'']"

definition dbank_deposited :: "double Bank" where
  "dbank_deposited = run dbank_alice_bob [Dep 1 (double_of_int 25) ''manual'']"

definition dbank_withdrawn :: "double Bank" where
  "dbank_withdrawn = run dbank_alice_bob [Wdr 1 (double_of_int 30) ''manual'']"


text \<open>A transfer of NaN, which both tests of \<open>Account::withdraw\<close> let through as well.\<close>

definition dbank_nan_transferred :: "double Bank" where
  "dbank_nan_transferred = run dbank_alice_bob [Xfer 1 2 NaN ''manual'']"

section \<open>Basic facts about the operations\<close>

text \<open>None of the facts of this section assumes a law of arithmetic.\<close>

lemma to_string_1: "to_string 1 = ''1''" by code_simp

lemma to_string_2: "to_string 2 = ''2''" by code_simp

lemma to_string_3: "to_string 3 = ''3''" by code_simp

lemma mk_Tx_sel [simp]:
  "tx_acc (mk_Tx i t v n) = i" "tx_type (mk_Tx i t v n) = t"
  "tx_amt (mk_Tx i t v n) = v" "tx_note (mk_Tx i t v n) = n"
  by (simp_all add: mk_Tx_def)

lemma balance_of_upd [simp]:
  "balance_of (b\<lparr>bank_a := m, bank_log := l\<rparr>) i = map_option bal (m i)"
  by (simp add: balance_of_def)

lemma butlast2_snoc2: "butlast (butlast (l @ [p, q])) = l"
  by (simp add: butlast_append)

lemma last_two_split:
  assumes "2 \<le> length xs"
  shows "xs = butlast (butlast xs) @ [xs ! (length xs - 2), last xs]"
proof (cases xs rule: rev_cases)
  case Nil
  with assms show ?thesis by simp
next
  case (snoc ys y)
  show ?thesis
  proof (cases ys rule: rev_cases)
    case Nil
    with snoc assms show ?thesis by simp
  next
    case (snoc zs z)
    with \<open>xs = ys @ [y]\<close> show ?thesis by (simp add: nth_append butlast_append)
  qed
qed

subsection \<open>Accounts\<close>

lemma Account_deposit_Inr:
  "Account_deposit A v n = Inr A' \<longleftrightarrow>
     \<not> v \<le> 0 \<and> A' = A\<lparr>bal := bal A + v, hist := hist A @ [mk_Tx (acc_id A) Deposit v n]\<rparr>"
  by (auto simp: Account_deposit_def)

lemma Account_withdraw_Inr:
  "Account_withdraw A v n = Inr A' \<longleftrightarrow>
     \<not> v \<le> 0 \<and> \<not> bal A < v
     \<and> A' = A\<lparr>bal := bal A - v, hist := hist A @ [mk_Tx (acc_id A) Withdraw v n]\<rparr>"
  by (auto simp: Account_withdraw_def)

subsection \<open>Deposit and transfer\<close>

lemma deposit_Inr_iff:
  "Bank_deposit b i v n = (Inr (), b') \<longleftrightarrow>
     (\<exists>A. bank_a b i = Some A \<and> \<not> v \<le> 0
        \<and> b' = b\<lparr>bank_a := (bank_a b)
                  (i \<mapsto> A\<lparr>bal := bal A + v,
                       hist := hist A @ [mk_Tx (acc_id A) Deposit v n]\<rparr>),
                bank_log := bank_log b @ [mk_Tx i Deposit v n]\<rparr>)"
  by (auto simp: Bank_deposit_def Bank_acc_def Account_deposit_def
      split: option.splits sum.splits if_splits)

lemma transfer_Inr_iff:
  "Bank_transfer b src dst v n = (Inr (), b') \<longleftrightarrow>
     (\<exists>A B. src \<noteq> dst \<and> bank_a b src = Some A \<and> bank_a b dst = Some B
        \<and> \<not> v \<le> 0 \<and> \<not> bal A < v
        \<and> b' = b\<lparr>bank_a := (bank_a b)
                  (src \<mapsto> A\<lparr>bal := bal A - v,
                       hist := hist A @ [mk_Tx (acc_id A) Withdraw v (transfer_note ''to '' dst n)]\<rparr>,
                   dst \<mapsto> B\<lparr>bal := bal B + v,
                       hist := hist B @ [mk_Tx (acc_id B) Deposit v (transfer_note ''from '' src n)]\<rparr>),
                bank_log := bank_log b @
                  [mk_Tx src TransferOut v (''to '' @ to_string dst),
                   mk_Tx dst TransferIn v (''from '' @ to_string src)]\<rparr>)"
  by (auto simp: Bank_transfer_def Let_def Bank_acc_def Account_withdraw_def Account_deposit_def
        split: option.splits sum.splits if_splits)

lemma transfer_Inl:
  assumes "Bank_transfer b src dst v n = (Inl e, b')"
  shows "b' = b \<or>
     (src \<noteq> dst \<and> bank_a b dst = None \<and> e = NotFound ''no account''
      \<and> (\<exists>A A'. bank_a b src = Some A
            \<and> Account_withdraw A v (transfer_note ''to '' dst n) = Inr A'
            \<and> b' = b\<lparr>bank_a := (bank_a b)(src \<mapsto> A')\<rparr>))"
  using assms
  by (auto simp: Bank_transfer_def Let_def Bank_acc_def Account_withdraw_def Account_deposit_def
        split: option.splits sum.splits if_splits)

subsection \<open>The two branches of undo\<close>

lemma undo_is_pair:
  assumes "bank_log b = l @ [p, q]" "is_transfer_pair p q"
  shows "Bank_undo b = undo_pair b p q"
  using assms by (simp add: Bank_undo_def is_transfer_pair_def same_amount_def nth_append)

lemma undo_is_single:
  assumes "bank_log b = l @ [q]" "\<not> (l \<noteq> [] \<and> is_transfer_pair (last l) q)"
  shows "Bank_undo b = undo_single b q"
proof (cases "l = []")
  case True
  with assms show ?thesis by (simp add: Bank_undo_def)
next
  case False
  then have "(l @ [q]) ! (length (l @ [q]) - 2) = last l"
    by (simp add: nth_append last_conv_nth)
  with assms False show ?thesis
    by (auto simp: Bank_undo_def is_transfer_pair_def same_amount_def Let_def)
qed

lemma undo_pair_Inr:
  assumes "undo_pair b p q = (Inr (), b')"
  shows "\<exists>T T' F F'. bank_a b (tx_acc q) = Some T
      \<and> Account_withdraw T (tx_amt q) ''undo transfer'' = Inr T'
      \<and> ((bank_a b)(tx_acc q \<mapsto> T')) (tx_acc p) = Some F
      \<and> Account_deposit F (tx_amt q) ''undo transfer'' = Inr F'
      \<and> b' = b\<lparr>bank_a := (bank_a b)(tx_acc q \<mapsto> T', tx_acc p \<mapsto> F'),
               bank_log := butlast (butlast (bank_log b))\<rparr>"
  using assms
  by (auto simp: undo_pair_def Let_def Bank_acc_def split: option.splits sum.splits)

text \<open>
  In a bank whose log names a missing account, the pair branch can fail after its
  withdrawal: the exception is caught and the withdrawal stays.
\<close>

lemma undo_pair_Inl:
  assumes "undo_pair b p q = (Inl m, b')"
  shows "b' = b \<or>
     (\<exists>T T'. bank_a b (tx_acc q) = Some T
        \<and> Account_withdraw T (tx_amt q) ''undo transfer'' = Inr T'
        \<and> ((bank_a b)(tx_acc q \<mapsto> T')) (tx_acc p) = None
        \<and> b' = b\<lparr>bank_a := (bank_a b)(tx_acc q \<mapsto> T')\<rparr>)"
  using assms
  by (auto simp: undo_pair_def Let_def Bank_acc_def Account_withdraw_def Account_deposit_def
      split: option.splits sum.splits if_splits)

lemma undo_pair_Inl_present:
  assumes "undo_pair b p q = (Inl m, b')"
    and "bank_a b (tx_acc p) \<noteq> None" "bank_a b (tx_acc q) \<noteq> None"
  shows "b' = b \<and> (\<exists>T e. bank_a b (tx_acc q) = Some T
           \<and> Account_withdraw T (tx_amt q) ''undo transfer'' = Inl e \<and> m = what e)"
  using assms
  by (auto simp: undo_pair_def Let_def Bank_acc_def Account_withdraw_def Account_deposit_def
      split: option.splits sum.splits if_splits)


lemma undo_single_Inr:
  assumes "undo_single b q = (Inr (), b')"
  shows "\<exists>A A'. bank_a b (tx_acc q) = Some A
      \<and> (if increases (tx_type q) then Account_withdraw A (tx_amt q) ''undo''
          else Account_deposit A (tx_amt q) ''undo'') = Inr A'
      \<and> b' = b\<lparr>bank_a := (bank_a b)(tx_acc q \<mapsto> A'), bank_log := butlast (bank_log b)\<rparr>"
  using assms
  by (auto simp: undo_single_def increases_def Bank_acc_def split: option.splits sum.splits if_splits)

lemma undo_single_Inl:
  assumes "undo_single b q = (Inl m, b')"
  shows "b' = b"
  using assms
  by (auto simp: undo_single_def Bank_acc_def split: option.splits sum.splits if_splits)


lemma undo_single_histories:
  assumes "undo_single b q = (Inr (), b')"
  shows "\<forall>i A. bank_a b i = Some A \<longrightarrow>
           (\<exists>A' hs. bank_a b' i = Some A' \<and> hist A' = hist A @ hs \<and> undo_tagged hs)"
    and "\<exists>A A' hs. bank_a b (tx_acc q) = Some A \<and> bank_a b' (tx_acc q) = Some A'
           \<and> hist A' = hist A @ hs \<and> hs \<noteq> []"
  using assms
  by (auto simp: undo_single_def Bank_acc_def Account_withdraw_def Account_deposit_def
      undo_tagged_def split: option.splits sum.splits if_splits)

lemma undo_pair_histories:
  assumes "undo_pair b p q = (Inr (), b')"
  shows "\<forall>i A. bank_a b i = Some A \<longrightarrow>
           (\<exists>A' hs. bank_a b' i = Some A' \<and> hist A' = hist A @ hs \<and> undo_tagged hs)"
    and "\<exists>A A' hs. bank_a b (tx_acc q) = Some A \<and> bank_a b' (tx_acc q) = Some A'
           \<and> hist A' = hist A @ hs \<and> hs \<noteq> []"
    and "\<exists>A A' hs. bank_a b (tx_acc p) = Some A \<and> bank_a b' (tx_acc p) = Some A'
           \<and> hist A' = hist A @ hs \<and> hs \<noteq> []"
  using assms
  by (auto simp: undo_pair_def Let_def Bank_acc_def Account_withdraw_def Account_deposit_def
      undo_tagged_def split: option.splits sum.splits if_splits)

lemma undo_log_prefix: "prefix (bank_log (snd (Bank_undo b))) (bank_log b)"
  by (auto simp: Bank_undo_def undo_pair_def undo_single_def Let_def Bank_acc_def prefixeq_butlast
      intro: prefix_order.trans [OF prefixeq_butlast prefixeq_butlast]
      split: option.splits sum.splits)

lemma undo_dom: "bank_a b i \<noteq> None \<Longrightarrow> bank_a (snd (Bank_undo b)) i \<noteq> None"
  by (auto simp: Bank_undo_def undo_pair_def undo_single_def Let_def Bank_acc_def
      split: option.splits sum.splits)

section \<open>The example banks, evaluated\<close>

lemma bank_alice_eq:
  "bank_alice =
     \<lparr>bank_a = [1 \<mapsto> \<lparr>acc_id = 1, owner = ''Alice'', bal = 100,
                        hist = [mk_Tx 1 Deposit 100 ''initial'']\<rparr>],
      bank_log = [mk_Tx 1 Deposit 100 ''initial''], bank_next = 2\<rparr>"
  by (simp add: bank_alice_def run_def Bank_init_def Bank_createChecking_def mk_Account_def)

lemma bank_alice_bob_eq:
  "bank_alice_bob =
     \<lparr>bank_a = [1 \<mapsto> \<lparr>acc_id = 1, owner = ''Alice'', bal = 100,
                        hist = [mk_Tx 1 Deposit 100 ''initial'']\<rparr>,
                 2 \<mapsto> \<lparr>acc_id = 2, owner = ''Bob'', bal = 0, hist = []\<rparr>],
      bank_log = [mk_Tx 1 Deposit 100 ''initial''], bank_next = 3\<rparr>"
  by (simp add: bank_alice_bob_def run_def Bank_init_def Bank_createChecking_def mk_Account_def)

lemma bank_transferred_eq:
  "bank_transferred =
     \<lparr>bank_a = [1 \<mapsto> \<lparr>acc_id = 1, owner = ''Alice'', bal = 60,
                        hist = [mk_Tx 1 Deposit 100 ''initial'',
                                mk_Tx 1 Withdraw 40 ''to 2: manual'']\<rparr>,
                 2 \<mapsto> \<lparr>acc_id = 2, owner = ''Bob'', bal = 40,
                        hist = [mk_Tx 2 Deposit 40 ''from 1: manual'']\<rparr>],
      bank_log = [mk_Tx 1 Deposit 100 ''initial'', mk_Tx 1 TransferOut 40 ''to 2'',
                  mk_Tx 2 TransferIn 40 ''from 1''],
      bank_next = 3\<rparr>"
  by (simp add: bank_transferred_def run_def bank_alice_bob_eq Bank_transfer_def Bank_acc_def
      Account_withdraw_def Account_deposit_def transfer_note_def to_string_1 to_string_2)

lemma bank_drained_eq:
  "bank_drained =
     \<lparr>bank_a = [1 \<mapsto> \<lparr>acc_id = 1, owner = ''Alice'', bal = 60,
                        hist = [mk_Tx 1 Deposit 100 ''initial'',
                                mk_Tx 1 Withdraw 40 ''to 2: manual'']\<rparr>,
                 2 \<mapsto> \<lparr>acc_id = 2, owner = ''Bob'', bal = 0,
                        hist = [mk_Tx 2 Deposit 40 ''from 1: manual'',
                                mk_Tx 2 Withdraw 40 ''to 3: manual'']\<rparr>],
      bank_log = [mk_Tx 1 Deposit 100 ''initial'', mk_Tx 1 TransferOut 40 ''to 2'',
                  mk_Tx 2 TransferIn 40 ''from 1''],
      bank_next = 3\<rparr>"
  by (simp add: bank_drained_def run_def bank_transferred_eq Bank_transfer_def Bank_acc_def
      Account_withdraw_def Account_deposit_def transfer_note_def to_string_3)

lemma bank_deposited_eq:
  "bank_deposited =
     \<lparr>bank_a = [1 \<mapsto> \<lparr>acc_id = 1, owner = ''Alice'', bal = 125,
                        hist = [mk_Tx 1 Deposit 100 ''initial'',
                                mk_Tx 1 Deposit 25 ''manual'']\<rparr>],
      bank_log = [mk_Tx 1 Deposit 100 ''initial'', mk_Tx 1 Deposit 25 ''manual''],
      bank_next = 2\<rparr>"
  by (simp add: bank_deposited_def run_def bank_alice_eq Bank_deposit_def Bank_acc_def
      Account_deposit_def)

lemma bank_withdrawn_eq:
  "bank_withdrawn =
     \<lparr>bank_a = [1 \<mapsto> \<lparr>acc_id = 1, owner = ''Alice'', bal = 70,
                        hist = [mk_Tx 1 Deposit 100 ''initial'',
                                mk_Tx 1 Withdraw 30 ''manual'']\<rparr>],
      bank_log = [mk_Tx 1 Deposit 100 ''initial'', mk_Tx 1 Withdraw 30 ''manual''],
      bank_next = 2\<rparr>"
  by (simp add: bank_withdrawn_def run_def bank_alice_eq Bank_withdraw_def Bank_acc_def
      Account_withdraw_def)


lemma deposit_alice:
  "Bank_deposit bank_alice 1 25 ''manual'' = (Inr (), bank_deposited)"
  by (simp add: bank_deposited_eq bank_alice_eq Bank_deposit_def Bank_acc_def
      Account_deposit_def)

section \<open>The machine's amounts, evaluated\<close>

text \<open>The numbers of the examples, and the sums, differences and comparisons they need.\<close>

lemma double_values:
  "double_of_int 1 = Fin 1 0" "double_of_int 25 = Fin 25 0" "double_of_int 30 = Fin 15 1"
  "double_of_int 40 = Fin 5 3" "double_of_int 100 = Fin 25 2"
  "double_of_int 100000000000000000 = Fin 762939453125 17"
  by code_simp+

lemma double_positive:
  "(0::double) < Fin 1 0" "(0::double) < Fin 25 2" "(0::double) < Fin 762939453125 17"
  "\<not> (0::double) < 0"
  "\<not> Fin 5 3 \<le> (0::double)" "\<not> Fin 25 0 \<le> (0::double)" "\<not> Fin 15 1 \<le> (0::double)"
  "\<not> Fin 762939453125 17 \<le> (0::double)" "\<not> NaN \<le> (0::double)" "\<not> (0::double) < NaN"
  by code_simp+

lemma double_compare:
  "\<not> Fin 25 2 < Fin 5 3" "\<not> Fin 5 3 < Fin 5 3" "Fin 5 3 \<le> Fin 5 3"
  "\<not> Fin 125 0 < Fin 25 0" "\<not> Fin 25 2 < Fin 15 1"
  "\<not> Fin 762939453125 17 < Fin 762939453125 17"
  "Fin 762939453125 17 \<le> Fin 762939453125 17"
  "\<not> NaN \<le> NaN"
  by code_simp+

lemma double_sums:
  "Fin 25 2 - Fin 5 3 = Fin 15 2" "0 + Fin 5 3 = Fin 5 3" "Fin 5 3 - Fin 5 3 = 0"
  "Fin 15 2 + Fin 5 3 = Fin 25 2"
  "Fin 25 2 + Fin 25 0 = Fin 125 0" "Fin 125 0 - Fin 25 0 = Fin 25 2"
  "Fin 25 2 - Fin 15 1 = Fin 35 1" "Fin 35 1 + Fin 15 1 = Fin 25 2"
  "0 + NaN = NaN"
  by code_simp+

text \<open>
  Rounding: \<open>1 + 10^17\<close> is \<open>10^17\<close>, since the next \<^verbatim>\<open>double\<close> after \<open>10^17\<close> is
  \<open>10^17 + 16\<close>; and \<open>0.1 + 0.2 - 0.2\<close> is not \<open>0.1\<close>.
\<close>

lemma double_rounding:
  "Fin 1 0 + Fin 762939453125 17 = Fin 762939453125 17"
  "Fin 762939453125 17 - Fin 762939453125 17 = 0"
  "0 + Fin 762939453125 17 = Fin 762939453125 17"
  "Fin 3602879701896397 (- 55) + Fin 3602879701896397 (- 54) - Fin 3602879701896397 (- 54)
     = Fin 1801439850948199 (- 54)"
  by code_simp+



lemma dbank_alice_bob_eq:
  "dbank_alice_bob =
     \<lparr>bank_a = [1 \<mapsto> \<lparr>acc_id = 1, owner = ''Alice'', bal = Fin 25 2,
                        hist = [mk_Tx 1 Deposit (Fin 25 2) ''initial'']\<rparr>,
                 2 \<mapsto> \<lparr>acc_id = 2, owner = ''Bob'', bal = 0, hist = []\<rparr>],
      bank_log = [mk_Tx 1 Deposit (Fin 25 2) ''initial''], bank_next = 3\<rparr>"
  by (simp add: dbank_alice_bob_def run_def Bank_init_def Bank_createChecking_def mk_Account_def
      double_values double_positive)

lemma dbank_transferred_eq:
  "dbank_transferred =
     \<lparr>bank_a = [1 \<mapsto> \<lparr>acc_id = 1, owner = ''Alice'', bal = Fin 15 2,
                        hist = [mk_Tx 1 Deposit (Fin 25 2) ''initial'',
                                mk_Tx 1 Withdraw (Fin 5 3) ''to 2: manual'']\<rparr>,
                 2 \<mapsto> \<lparr>acc_id = 2, owner = ''Bob'', bal = Fin 5 3,
                        hist = [mk_Tx 2 Deposit (Fin 5 3) ''from 1: manual'']\<rparr>],
      bank_log = [mk_Tx 1 Deposit (Fin 25 2) ''initial'', mk_Tx 1 TransferOut (Fin 5 3) ''to 2'',
                  mk_Tx 2 TransferIn (Fin 5 3) ''from 1''],
      bank_next = 3\<rparr>"
  by (simp add: dbank_transferred_def run_def dbank_alice_bob_eq Bank_transfer_def Bank_acc_def
      Account_withdraw_def Account_deposit_def transfer_note_def to_string_1 to_string_2
      double_values double_positive double_compare double_sums)

lemma dbank_deposited_eq:
  "dbank_deposited =
     \<lparr>bank_a = [2 \<mapsto> \<lparr>acc_id = 2, owner = ''Bob'', bal = 0, hist = []\<rparr>,
                 1 \<mapsto> \<lparr>acc_id = 1, owner = ''Alice'', bal = Fin 125 0,
                        hist = [mk_Tx 1 Deposit (Fin 25 2) ''initial'',
                                mk_Tx 1 Deposit (Fin 25 0) ''manual'']\<rparr>],
      bank_log = [mk_Tx 1 Deposit (Fin 25 2) ''initial'', mk_Tx 1 Deposit (Fin 25 0) ''manual''],
      bank_next = 3\<rparr>"
  by (simp add: dbank_deposited_def run_def dbank_alice_bob_eq Bank_deposit_def Bank_acc_def
      Account_deposit_def double_values double_positive double_sums)

lemma dbank_withdrawn_eq:
  "dbank_withdrawn =
     \<lparr>bank_a = [2 \<mapsto> \<lparr>acc_id = 2, owner = ''Bob'', bal = 0, hist = []\<rparr>,
                 1 \<mapsto> \<lparr>acc_id = 1, owner = ''Alice'', bal = Fin 35 1,
                        hist = [mk_Tx 1 Deposit (Fin 25 2) ''initial'',
                                mk_Tx 1 Withdraw (Fin 15 1) ''manual'']\<rparr>],
      bank_log = [mk_Tx 1 Deposit (Fin 25 2) ''initial'', mk_Tx 1 Withdraw (Fin 15 1) ''manual''],
      bank_next = 3\<rparr>"
  by (simp add: dbank_withdrawn_def run_def dbank_alice_bob_eq Bank_withdraw_def Bank_acc_def
      Account_withdraw_def double_values double_positive double_compare double_sums)


lemma dbank_big_eq:
  "dbank_big =
     \<lparr>bank_a = [1 \<mapsto> \<lparr>acc_id = 1, owner = ''Alice'', bal = Fin 762939453125 17,
                        hist = [mk_Tx 1 Deposit (Fin 762939453125 17) ''initial'']\<rparr>,
                 2 \<mapsto> \<lparr>acc_id = 2, owner = ''Bob'', bal = Fin 1 0,
                        hist = [mk_Tx 2 Deposit (Fin 1 0) ''initial'']\<rparr>],
      bank_log = [mk_Tx 1 Deposit (Fin 762939453125 17) ''initial'',
                  mk_Tx 2 Deposit (Fin 1 0) ''initial''],
      bank_next = 3\<rparr>"
  by (simp add: dbank_big_def run_def Bank_init_def Bank_createChecking_def mk_Account_def
      double_values double_positive)

lemma dbank_big_transferred_eq:
  "dbank_big_transferred =
     \<lparr>bank_a = [1 \<mapsto> \<lparr>acc_id = 1, owner = ''Alice'', bal = 0,
                        hist = [mk_Tx 1 Deposit (Fin 762939453125 17) ''initial'',
                                mk_Tx 1 Withdraw (Fin 762939453125 17) ''to 2: manual'']\<rparr>,
                 2 \<mapsto> \<lparr>acc_id = 2, owner = ''Bob'', bal = Fin 762939453125 17,
                        hist = [mk_Tx 2 Deposit (Fin 1 0) ''initial'',
                                mk_Tx 2 Deposit (Fin 762939453125 17) ''from 1: manual'']\<rparr>],
      bank_log = [mk_Tx 1 Deposit (Fin 762939453125 17) ''initial'',
                  mk_Tx 2 Deposit (Fin 1 0) ''initial'',
                  mk_Tx 1 TransferOut (Fin 762939453125 17) ''to 2'',
                  mk_Tx 2 TransferIn (Fin 762939453125 17) ''from 1''],
      bank_next = 3\<rparr>"
  by (simp add: dbank_big_transferred_def run_def dbank_big_eq Bank_transfer_def Bank_acc_def
      Account_withdraw_def Account_deposit_def transfer_note_def to_string_1 to_string_2
      double_values double_positive double_compare double_rounding)

lemma dbank_big_deposited_eq:
  "dbank_big_deposited =
     \<lparr>bank_a = [1 \<mapsto> \<lparr>acc_id = 1, owner = ''Alice'', bal = Fin 762939453125 17,
                        hist = [mk_Tx 1 Deposit (Fin 762939453125 17) ''initial'']\<rparr>,
                 2 \<mapsto> \<lparr>acc_id = 2, owner = ''Bob'', bal = Fin 762939453125 17,
                        hist = [mk_Tx 2 Deposit (Fin 1 0) ''initial'',
                                mk_Tx 2 Deposit (Fin 762939453125 17) ''manual'']\<rparr>],
      bank_log = [mk_Tx 1 Deposit (Fin 762939453125 17) ''initial'',
                  mk_Tx 2 Deposit (Fin 1 0) ''initial'',
                  mk_Tx 2 Deposit (Fin 762939453125 17) ''manual''],
      bank_next = 3\<rparr>"
  by (simp add: dbank_big_deposited_def run_def dbank_big_eq Bank_deposit_def Bank_acc_def
      Account_deposit_def double_values double_positive double_rounding)

section \<open>What every run preserves\<close>

lemma reachable_by_run:
  assumes "reachable_by ok b" "list_all ok cs"
  shows "reachable_by ok (run b cs)"
  using assms(2)
proof (induction cs rule: rev_induct)
  case Nil
  from assms(1) show ?case by (simp add: run_def)
next
  case (snoc c cs)
  then have "reachable_by ok (run b cs)" "ok c" by simp_all
  then have "reachable_by ok (exec (run b cs) c)" by (rule reachable_by.step)
  then show ?case by (simp add: run_def)
qed

lemma reachable_run: "reachable (run Bank_init cs)"
  unfolding reachable_def
  by (rule reachable_by_run [OF reachable_by.init]) (simp add: list_all_iff)

lemma reachable_bank_transferred: "reachable bank_transferred"
proof -
  have eq: "bank_transferred = run Bank_init
      [Create ''Alice'' 100, Create ''Bob'' 0, Xfer 1 2 40 ''manual'']"
    by (simp add: bank_transferred_def bank_alice_bob_def run_def)
  show ?thesis unfolding eq by (rule reachable_run)
qed

lemma reachable_bank_drained: "reachable bank_drained"
proof -
  have eq: "bank_drained = run Bank_init
      [Create ''Alice'' 100, Create ''Bob'' 0, Xfer 1 2 40 ''manual'', Xfer 2 3 40 ''manual'']"
    by (simp add: bank_drained_def bank_transferred_def bank_alice_bob_def run_def)
  show ?thesis unfolding eq by (rule reachable_run)
qed

lemma reachable_bank_withdrawn: "reachable bank_withdrawn"
proof -
  have eq: "bank_withdrawn = run Bank_init [Create ''Alice'' 100, Wdr 1 30 ''manual'']"
    by (simp add: bank_withdrawn_def bank_alice_def run_def)
  show ?thesis unfolding eq by (rule reachable_run)
qed

subsection \<open>The log names accounts of the bank\<close>

lemma undo_log_subset: "set (bank_log (snd (Bank_undo b))) \<subseteq> set (bank_log b)"
  using undo_log_prefix [of b] by (rule set_mono_prefix)

lemma exec_log_accounts_present:
  assumes "log_accounts_present b"
  shows "log_accounts_present (exec b c)"
proof (cases c)
  case Undo
  with assms undo_log_subset [of b] show ?thesis
    unfolding log_accounts_present_def using undo_dom [of b] by auto
next
  case (Create ow init)
  with assms show ?thesis
    by (auto simp: log_accounts_present_def Bank_createChecking_def Let_def)
next
  case (Dep i v n)
  with assms show ?thesis
    by (auto simp: log_accounts_present_def Bank_deposit_def Bank_acc_def
        split: option.splits sum.splits)
next
  case (Wdr i v n)
  with assms show ?thesis
    by (auto simp: log_accounts_present_def Bank_withdraw_def Bank_acc_def
        split: option.splits sum.splits)
next
  case (Xfer src dst v n)
  with assms show ?thesis
    by (auto simp: log_accounts_present_def Bank_transfer_def Let_def Bank_acc_def
        split: option.splits sum.splits if_splits)
qed

lemma reachable_log_accounts_present:
  assumes "reachable_by ok b"
  shows "log_accounts_present b"
  using assms
proof (induction rule: reachable_by.induct)
  case init
  show ?case by (simp add: log_accounts_present_def Bank_init_def)
next
  case (step b c)
  then show ?case by (simp add: exec_log_accounts_present)
qed

subsection \<open>The amounts of the log\<close>





lemma exec_log_positive:
  fixes b :: "'a::linordered_ab_group_add Bank"
  assumes "log_positive b"
  shows "log_positive (exec b c)"
proof (cases c)
  case Undo
  with assms undo_log_subset [of b] show ?thesis
    unfolding log_positive_def by auto
next
  case (Create ow init)
  with assms show ?thesis
    by (auto simp: log_positive_def Bank_createChecking_def Let_def)
next
  case (Dep i v n)
  with assms show ?thesis
    by (auto simp: log_positive_def Bank_deposit_def Bank_acc_def Account_deposit_def
        split: option.splits sum.splits if_splits)
next
  case (Wdr i v n)
  with assms show ?thesis
    by (auto simp: log_positive_def Bank_withdraw_def Bank_acc_def Account_withdraw_def
        split: option.splits sum.splits if_splits)
next
  case (Xfer src dst v n)
  with assms show ?thesis
    by (auto simp: log_positive_def Bank_transfer_def Let_def Bank_acc_def
        Account_withdraw_def Account_deposit_def
        split: option.splits sum.splits if_splits)
qed

lemma reachable_log_positive:
  fixes b :: "'a::linordered_ab_group_add Bank"
  assumes "reachable_by ok b"
  shows "log_positive b"
  using assms
proof (induction rule: reachable_by.induct)
  case init
  show ?case by (simp add: log_positive_def Bank_init_def)
next
  case (step b c)
  then show ?case by (simp add: exec_log_positive)
qed

section \<open>C1: a failed transfer\<close>

text \<open>
  A failed transfer leaves the bank as it was, with one exception: when the destination
  does not exist and the withdrawal from the source went through, the bank returned with
  the exception \<open>NotFound\<close> is the bank after the withdrawal.  (No law of arithmetic is
  assumed.)
\<close>

lemma transfer_failure_cases:
  assumes "Bank_transfer b src dst v n = (Inl e, b')"
  shows "(src = dst \<or> bank_a b src = None \<or> v \<le> 0
            \<or> (\<exists>A. bank_a b src = Some A \<and> bal A < v)) \<and> b' = b
         \<or> (src \<noteq> dst \<and> bank_a b dst = None \<and> e = NotFound ''no account''
             \<and> (\<exists>A. bank_a b src = Some A \<and> \<not> v \<le> 0 \<and> \<not> bal A < v
                   \<and> b' = b\<lparr>bank_a := (bank_a b)
                        (src \<mapsto> A\<lparr>bal := bal A - v,
                           hist := hist A @
                             [mk_Tx (acc_id A) Withdraw v (transfer_note ''to '' dst n)]\<rparr>)\<rparr>))"
  using assms
  by (auto simp: Bank_transfer_def Let_def Bank_acc_def Account_withdraw_def Account_deposit_def
        split: option.splits sum.splits if_splits)

text \<open>
  C1.  The claim that no failed transfer changes the state does not hold of the code.
  In the bank that holds only Alice's account (id \<open>1\<close>, balance \<open>100\<close>), the transfer
  of \<open>40\<close> from \<open>1\<close> to the missing account \<open>2\<close> throws \<open>NotFound\<close> after the
  withdrawal: Alice's balance is \<open>60\<close>, her history has a new \<open>Withdraw\<close> entry, and the
  global log is as before.
\<close>

theorem transfer_missing_destination_keeps_withdrawal:
  "fst (Bank_transfer bank_alice 1 2 40 ''manual'') = Inl (NotFound ''no account'')
   \<and> balance_of bank_alice 1 = Some 100
   \<and> balance_of (snd (Bank_transfer bank_alice 1 2 40 ''manual'')) 1 = Some 60
   \<and> history_of (snd (Bank_transfer bank_alice 1 2 40 ''manual'')) 1 =
        Some [mk_Tx 1 Deposit 100 ''initial'', mk_Tx 1 Withdraw 40 ''to 2: manual'']
   \<and> bank_log (snd (Bank_transfer bank_alice 1 2 40 ''manual'')) = bank_log bank_alice
   \<and> snd (Bank_transfer bank_alice 1 2 40 ''manual'') \<noteq> bank_alice"
proof -
  have "bank_a (snd (Bank_transfer bank_alice 1 2 40 ''manual'')) 1 \<noteq> bank_a bank_alice 1"
    by (simp add: bank_alice_eq Bank_transfer_def Bank_acc_def Account_withdraw_def)
  then have "snd (Bank_transfer bank_alice 1 2 40 ''manual'') \<noteq> bank_alice"
    by auto
  then show ?thesis
    by (simp add: bank_alice_eq Bank_transfer_def Bank_acc_def Account_withdraw_def
        balance_of_def history_of_def transfer_note_def to_string_2)
qed

section \<open>C2: a negative initial balance\<close>

text \<open>\<^verbatim>\<open>Bank::createChecking\<close> has no failing path: it returns the id \<open>next\<close> for every input.\<close>

lemma createChecking_returns_next: "fst (Bank_createChecking b ow init) = bank_next b"
  by (simp add: Bank_createChecking_def Let_def)

text \<open>
  C2.  The claim that a negative initial balance is rejected does not hold of the code:
  \<^verbatim>\<open>createChecking\<close> checks nothing.  Called with \<open>-5\<close> on the initial bank it returns
  the id \<open>1\<close> and stores an account whose balance is \<open>-5\<close> and whose history is empty;
  the log stays empty and \<open>next\<close> becomes \<open>2\<close>.
\<close>

theorem createChecking_accepts_negative_initial:
  "Bank_createChecking (Bank_init :: real Bank) ''Eve'' (- 5) =
     (1, \<lparr>bank_a = [1 \<mapsto> \<lparr>acc_id = 1, owner = ''Eve'', bal = - 5, hist = []\<rparr>],
           bank_log = [], bank_next = 2\<rparr>)"
  by (simp add: Bank_createChecking_def Bank_init_def mk_Account_def)

section \<open>C3: balance and history of an account\<close>

text \<open>
  With exact ordered arithmetic every operation keeps the invariant of the accounts, the
  creation of an account provided its initial balance is not negative.
\<close>

lemma signed_sum_snoc:
  "signed_sum (ts @ [t]) =
     (if increases (tx_type t) then signed_sum ts + tx_amt t else signed_sum ts - tx_amt t)"
  by (simp add: signed_sum_def)

lemma mk_Account_ok:
  fixes init :: "'a::linordered_ab_group_add"
  assumes "0 \<le> init"
  shows "account_ok (mk_Account i ow init)"
  using assms
  by (auto simp: account_ok_def mk_Account_def signed_sum_def increases_def mk_Tx_def)

lemma Account_deposit_ok:
  fixes A :: "'a::linordered_ab_group_add Account"
  assumes "account_ok A" "Account_deposit A v n = Inr A'"
  shows "account_ok A'"
  using assms
  by (auto simp: account_ok_def Account_deposit_Inr signed_sum_snoc increases_def mk_Tx_def
      not_le intro: add_nonneg_nonneg less_imp_le)

lemma Account_withdraw_ok:
  fixes A :: "'a::linordered_ab_group_add Account"
  assumes "account_ok A" "Account_withdraw A v n = Inr A'"
  shows "account_ok A'"
  using assms
  by (auto simp: account_ok_def Account_withdraw_Inr signed_sum_snoc increases_def mk_Tx_def
      not_less)

lemma accounts_ok_upd:
  assumes "accounts_ok b" "account_ok A"
  shows "accounts_ok (b\<lparr>bank_a := (bank_a b)(i \<mapsto> A), bank_log := l\<rparr>)"
    and "accounts_ok (b\<lparr>bank_a := (bank_a b)(i \<mapsto> A)\<rparr>)"
    and "accounts_ok (b\<lparr>bank_a := (bank_a b)(i \<mapsto> A), bank_log := l, bank_next := k\<rparr>)"
  using assms by (auto simp: accounts_ok_def)

lemma accounts_ok_lookup: "accounts_ok b \<Longrightarrow> bank_a b i = Some A \<Longrightarrow> account_ok A"
  by (auto simp: accounts_ok_def)

lemma createChecking_accounts_ok:
  fixes b :: "'a::linordered_ab_group_add Bank"
  assumes "accounts_ok b" "0 \<le> init"
  shows "accounts_ok (snd (Bank_createChecking b ow init))"
  using assms mk_Account_ok [of init "bank_next b" ow]
  by (auto simp: Bank_createChecking_def Let_def accounts_ok_def)

lemma deposit_accounts_ok:
  fixes b :: "'a::linordered_ab_group_add Bank"
  assumes "accounts_ok b"
  shows "accounts_ok (snd (Bank_deposit b i v n))"
  using assms
  by (auto simp: Bank_deposit_def Bank_acc_def
      intro!: accounts_ok_upd elim: Account_deposit_ok [rotated] dest: accounts_ok_lookup
      split: option.splits sum.splits)

lemma withdraw_accounts_ok:
  fixes b :: "'a::linordered_ab_group_add Bank"
  assumes "accounts_ok b"
  shows "accounts_ok (snd (Bank_withdraw b i v n))"
  using assms
  by (auto simp: Bank_withdraw_def Bank_acc_def
      intro!: accounts_ok_upd elim: Account_withdraw_ok [rotated] dest: accounts_ok_lookup
      split: option.splits sum.splits)

lemma transfer_accounts_ok:
  fixes b :: "'a::linordered_ab_group_add Bank"
  assumes "accounts_ok b"
  shows "accounts_ok (snd (Bank_transfer b src dst v n))"
proof (cases "Bank_transfer b src dst v n")
  case (Pair r b')
  show ?thesis
  proof (cases r)
    case (Inl e)
    with Pair have "b' = b \<or>
      (\<exists>A A'. bank_a b src = Some A
            \<and> Account_withdraw A v (transfer_note ''to '' dst n) = Inr A'
            \<and> b' = b\<lparr>bank_a := (bank_a b)(src \<mapsto> A')\<rparr>)"
      using transfer_Inl [of b src dst v n e b'] by auto
    with assms Pair show ?thesis
      by (auto intro!: accounts_ok_upd elim: Account_withdraw_ok [rotated]
          dest: accounts_ok_lookup)
  next
    case (Inr u)
    with Pair have "Bank_transfer b src dst v n = (Inr (), b')" by simp
    then obtain A A' B B' where h: "bank_a b src = Some A"
        "Account_withdraw A v (transfer_note ''to '' dst n) = Inr A'"
        "((bank_a b)(src \<mapsto> A')) dst = Some B"
        "Account_deposit B v (transfer_note ''from '' src n) = Inr B'"
        "bank_a b' = (bank_a b)(src \<mapsto> A', dst \<mapsto> B')"
      by (auto simp: Bank_transfer_def Let_def Bank_acc_def
          split: option.splits sum.splits if_splits)
    from assms h(1,2) have A': "account_ok A'"
      by (blast intro: Account_withdraw_ok accounts_ok_lookup)
    with assms h(3) have "account_ok B"
      by (auto simp: accounts_ok_def split: if_splits)
    with h(4) have "account_ok B'"
      by (blast intro: Account_deposit_ok)
    with A' assms h(5) Pair show ?thesis
      by (auto simp: accounts_ok_def split: if_splits)
  qed
qed

lemma undo_single_accounts_ok:
  fixes b :: "'a::linordered_ab_group_add Bank"
  assumes "accounts_ok b"
  shows "accounts_ok (snd (undo_single b q))"
  using assms
  by (auto simp: undo_single_def Bank_acc_def
      intro!: accounts_ok_upd elim: Account_withdraw_ok [rotated] Account_deposit_ok [rotated]
      dest: accounts_ok_lookup
      split: option.splits sum.splits if_splits)

lemma undo_pair_accounts_ok:
  fixes b :: "'a::linordered_ab_group_add Bank"
  assumes "accounts_ok b"
  shows "accounts_ok (snd (undo_pair b p q))"
proof (cases "undo_pair b p q")
  case (Pair r b')
  show ?thesis
  proof (cases r)
    case (Inl m)
    with Pair have "b' = b \<or>
       (\<exists>T T'. bank_a b (tx_acc q) = Some T
          \<and> Account_withdraw T (tx_amt q) ''undo transfer'' = Inr T'
          \<and> b' = b\<lparr>bank_a := (bank_a b)(tx_acc q \<mapsto> T')\<rparr>)"
      by (auto simp: undo_pair_def Let_def Bank_acc_def
          split: option.splits sum.splits)
    with assms Pair show ?thesis
      by (auto intro!: accounts_ok_upd elim: Account_withdraw_ok [rotated]
          dest: accounts_ok_lookup)
  next
    case (Inr u)
    with Pair have "undo_pair b p q = (Inr (), b')" by simp
    from undo_pair_Inr [OF this] obtain T T' F F' where
      h: "bank_a b (tx_acc q) = Some T"
        "Account_withdraw T (tx_amt q) ''undo transfer'' = Inr T'"
        "((bank_a b)(tx_acc q \<mapsto> T')) (tx_acc p) = Some F"
        "Account_deposit F (tx_amt q) ''undo transfer'' = Inr F'"
        "b' = b\<lparr>bank_a := (bank_a b)(tx_acc q \<mapsto> T', tx_acc p \<mapsto> F'),
               bank_log := butlast (butlast (bank_log b))\<rparr>"
      by blast
    from assms h(1,2) have T': "account_ok T'"
      by (blast intro: Account_withdraw_ok accounts_ok_lookup)
    with assms h(3) have "account_ok F"
      by (auto simp: accounts_ok_def split: if_splits)
    with h(4) have "account_ok F'"
      by (blast intro: Account_deposit_ok)
    with T' assms h(5) Pair show ?thesis
      by (auto simp: accounts_ok_def split: if_splits)
  qed
qed

lemma undo_accounts_ok:
  fixes b :: "'a::linordered_ab_group_add Bank"
  assumes "accounts_ok b"
  shows "accounts_ok (snd (Bank_undo b))"
  using assms
  by (auto simp: Bank_undo_def Let_def intro: undo_pair_accounts_ok undo_single_accounts_ok)

lemma exec_accounts_ok:
  fixes b :: "'a::linordered_ab_group_add Bank"
  assumes "accounts_ok b" "valid_initial c"
  shows "accounts_ok (exec b c)"
  using assms
  by (cases c)
    (simp_all add: createChecking_accounts_ok deposit_accounts_ok withdraw_accounts_ok
      transfer_accounts_ok undo_accounts_ok)

text \<open>
  When every account is created with a non-negative initial balance, every account of
  every reachable bank has a non-negative balance that is the signed sum of its history.
\<close>

lemma balance_invariant_valid_initial:
  fixes b :: "'a::linordered_ab_group_add Bank"
  assumes "reachable_by valid_initial b" "bank_a b i = Some A"
  shows "0 \<le> bal A \<and> bal A = signed_sum (hist A)"
proof -
  from assms(1) have "accounts_ok b"
  proof (induction rule: reachable_by.induct)
    case init
    show ?case by (simp add: accounts_ok_def Bank_init_def)
  next
    case (step b c)
    then show ?case by (simp add: exec_accounts_ok)
  qed
  from accounts_ok_lookup [OF this assms(2)] show ?thesis
    unfolding account_ok_def .
qed

text \<open>
  C3.  The claim that every balance is non-negative and equals the signed sum of the
  account's history does not hold of the code after \<^verbatim>\<open>createChecking\<close> with a negative
  initial balance: after the single call with \<open>-5\<close> the account \<open>1\<close> has the balance
  \<open>-5\<close> and an empty history, whose signed sum is \<open>0\<close>.
\<close>

theorem negative_initial_breaks_balance_invariant:
  "balance_of (run (Bank_init :: real Bank) [Create ''Eve'' (- 5)]) 1 = Some (- 5)
   \<and> history_of (run (Bank_init :: real Bank) [Create ''Eve'' (- 5)]) 1 = Some []
   \<and> signed_sum ([] :: real Tx list) = 0
   \<and> (- 5 :: real) < 0"
  by (simp add: run_def Bank_createChecking_def Bank_init_def mk_Account_def balance_of_def
      history_of_def signed_sum_def)

section \<open>C4: a successful transfer\<close>



section \<open>C5: undo of a transfer pair\<close>

text \<open>What undo makes of the bank a transfer has just returned, for any arithmetic.\<close>

lemma undo_after_transfer_any:
  assumes t: "Bank_transfer b0 src dst v n = (Inr (), b1)" and sv: "same_amount v v"
  shows "\<exists>A B. src \<noteq> dst \<and> bank_a b0 src = Some A \<and> bank_a b0 dst = Some B
     \<and> Bank_undo b1 =
         (if bal B + v < v then (Inl ''insufficient'', b1)
          else (Inr (), b1\<lparr>bank_a := (bank_a b1)
                  (dst \<mapsto> the (bank_a b1 dst)\<lparr>bal := bal B + v - v,
                     hist := hist (the (bank_a b1 dst)) @
                       [mk_Tx (acc_id B) Withdraw v ''undo transfer'']\<rparr>,
                   src \<mapsto> the (bank_a b1 src)\<lparr>bal := bal A - v + v,
                     hist := hist (the (bank_a b1 src)) @
                       [mk_Tx (acc_id A) Deposit v ''undo transfer'']\<rparr>),
                bank_log := bank_log b0\<rparr>))"
proof -
  from t obtain A B where h: "src \<noteq> dst" "bank_a b0 src = Some A" "bank_a b0 dst = Some B"
      "\<not> v \<le> 0" "\<not> bal A < v"
      and b1: "b1 = b0\<lparr>bank_a := (bank_a b0)
                  (src \<mapsto> A\<lparr>bal := bal A - v,
                       hist := hist A @ [mk_Tx (acc_id A) Withdraw v (transfer_note ''to '' dst n)]\<rparr>,
                   dst \<mapsto> B\<lparr>bal := bal B + v,
                       hist := hist B @ [mk_Tx (acc_id B) Deposit v (transfer_note ''from '' src n)]\<rparr>),
                bank_log := bank_log b0 @
                  [mk_Tx src TransferOut v (''to '' @ to_string dst),
                   mk_Tx dst TransferIn v (''from '' @ to_string src)]\<rparr>"
    unfolding transfer_Inr_iff by blast
  let ?p = "mk_Tx src TransferOut v (''to '' @ to_string dst)"
  let ?q = "mk_Tx dst TransferIn v (''from '' @ to_string src)"
  have log: "bank_log b1 = bank_log b0 @ [?p, ?q]"
    by (simp add: b1)
  have pair: "is_transfer_pair ?p ?q"
    using sv by (simp add: is_transfer_pair_def)
  have u: "Bank_undo b1 = undo_pair b1 ?p ?q"
    using log pair by (rule undo_is_pair)
  from h have "undo_pair b1 ?p ?q =
         (if bal B + v < v then (Inl ''insufficient'', b1)
          else (Inr (), b1\<lparr>bank_a := (bank_a b1)
                  (dst \<mapsto> the (bank_a b1 dst)\<lparr>bal := bal B + v - v,
                     hist := hist (the (bank_a b1 dst)) @
                       [mk_Tx (acc_id B) Withdraw v ''undo transfer'']\<rparr>,
                   src \<mapsto> the (bank_a b1 src)\<lparr>bal := bal A - v + v,
                     hist := hist (the (bank_a b1 src)) @
                       [mk_Tx (acc_id A) Deposit v ''undo transfer'']\<rparr>),
                bank_log := bank_log b0\<rparr>))"
    by (simp add: undo_pair_def Let_def Bank_acc_def b1 Account_withdraw_def
        Account_deposit_def butlast_append)
  with h u show ?thesis by simp
qed

lemma undo_after_transfer_balances:
  assumes t: "Bank_transfer b0 src dst v n = (Inr (), b1)" and sv: "same_amount v v"
  shows "\<exists>A B. bank_a b0 src = Some A \<and> bank_a b0 dst = Some B
       \<and> ((\<exists>b2. Bank_undo b1 = (Inr (), b2)) \<longleftrightarrow> \<not> bal B + v < v)
       \<and> (Bank_undo b1 = (Inr (), b2) \<longrightarrow>
             balance_of b2 src = Some (bal A - v + v)
           \<and> balance_of b2 dst = Some (bal B + v - v)
           \<and> (balance_of b2 src = balance_of b0 src \<longleftrightarrow> bal A - v + v = bal A)
           \<and> (balance_of b2 dst = balance_of b0 dst \<longleftrightarrow> bal B + v - v = bal B)
           \<and> bank_log b2 = bank_log b0)"
proof -
  from undo_after_transfer_any [OF t sv] obtain A B where
    h: "src \<noteq> dst" "bank_a b0 src = Some A" "bank_a b0 dst = Some B"
    and u: "Bank_undo b1 =
         (if bal B + v < v then (Inl ''insufficient'', b1)
          else (Inr (), b1\<lparr>bank_a := (bank_a b1)
                  (dst \<mapsto> the (bank_a b1 dst)\<lparr>bal := bal B + v - v,
                     hist := hist (the (bank_a b1 dst)) @
                       [mk_Tx (acc_id B) Withdraw v ''undo transfer'']\<rparr>,
                   src \<mapsto> the (bank_a b1 src)\<lparr>bal := bal A - v + v,
                     hist := hist (the (bank_a b1 src)) @
                       [mk_Tx (acc_id A) Deposit v ''undo transfer'']\<rparr>),
                bank_log := bank_log b0\<rparr>))"
    by blast
  from u have succ: "(\<exists>b2. Bank_undo b1 = (Inr (), b2)) \<longleftrightarrow> \<not> bal B + v < v"
    by simp
  have after: "balance_of b2 src = Some (bal A - v + v)
           \<and> balance_of b2 dst = Some (bal B + v - v)
           \<and> (balance_of b2 src = balance_of b0 src \<longleftrightarrow> bal A - v + v = bal A)
           \<and> (balance_of b2 dst = balance_of b0 dst \<longleftrightarrow> bal B + v - v = bal B)
           \<and> bank_log b2 = bank_log b0" if "Bank_undo b1 = (Inr (), b2)"
    using that u h by (auto simp: balance_of_def split: if_splits)
  from h succ after show ?thesis by blast
qed

text \<open>
  When the amount is not a number, the two entries of the transfer are not a matched pair
  for \<open>undo\<close>, which reverses the \<open>TransferIn\<close> entry alone.
\<close>

lemma undo_after_transfer_not_a_number:
  assumes t: "Bank_transfer b0 src dst v n = (Inr (), b1)" and sv: "\<not> same_amount v v"
  shows "Bank_undo b1 = undo_single b1 (mk_Tx dst TransferIn v (''from '' @ to_string src))"
proof -
  let ?p = "mk_Tx src TransferOut v (''to '' @ to_string dst)"
  let ?q = "mk_Tx dst TransferIn v (''from '' @ to_string src)"
  from t have "bank_log b1 = (bank_log b0 @ [?p]) @ [?q]"
    unfolding transfer_Inr_iff by auto
  moreover from sv
  have "\<not> (bank_log b0 @ [?p] \<noteq> [] \<and> is_transfer_pair (last (bank_log b0 @ [?p])) ?q)"
    by (simp add: is_transfer_pair_def)
  ultimately show ?thesis by (rule undo_is_single)
qed

text \<open>
  With exact ordered arithmetic the two balances are those of before the transfer, and
  the undo does succeed when the destination's balance before the transfer was not
  negative.
\<close>

lemma undo_after_transfer_exact:
  fixes c0 :: "'a::linordered_ab_group_add Bank"
  assumes t: "Bank_transfer c0 s d w m = (Inr (), c1)"
  shows "(Bank_undo c1 = (Inr (), c2) \<longrightarrow>
            balance_of c2 s = balance_of c0 s \<and> balance_of c2 d = balance_of c0 d
            \<and> bank_log c2 = bank_log c0)
       \<and> ((\<exists>B. bank_a c0 d = Some B \<and> 0 \<le> bal B) \<longrightarrow> (\<exists>c2. Bank_undo c1 = (Inr (), c2)))"
proof -
  have sw: "same_amount w w" by (simp add: same_amount_def)
  from undo_after_transfer_balances [OF t sw, of c2] show ?thesis
    by (auto simp: not_less)
qed

text \<open>
  The machine's arithmetic is not exact.  Alice has \<open>10^17\<close> and Bob has \<open>1\<close>; Alice
  transfers \<open>10^17\<close> to Bob, whose balance becomes \<open>1 + 10^17\<close>, rounded to \<open>10^17\<close>; the
  undo withdraws \<open>10^17\<close> from Bob and leaves him \<open>0\<close>.
\<close>

lemma transfer_dbank_big:
  "Bank_transfer dbank_big 1 2 (double_of_int 100000000000000000) ''manual''
     = (Inr (), dbank_big_transferred)"
  by (simp add: dbank_big_transferred_eq dbank_big_eq Bank_transfer_def Bank_acc_def
      Account_withdraw_def Account_deposit_def transfer_note_def to_string_1 to_string_2
      double_values double_positive double_compare double_rounding)

lemma undo_dbank_big_transferred:
  "Bank_undo dbank_big_transferred =
     (Inr (),
      \<lparr>bank_a = [2 \<mapsto> \<lparr>acc_id = 2, owner = ''Bob'', bal = 0,
                         hist = [mk_Tx 2 Deposit (Fin 1 0) ''initial'',
                                 mk_Tx 2 Deposit (Fin 762939453125 17) ''from 1: manual'',
                                 mk_Tx 2 Withdraw (Fin 762939453125 17) ''undo transfer'']\<rparr>,
                  1 \<mapsto> \<lparr>acc_id = 1, owner = ''Alice'', bal = Fin 762939453125 17,
                         hist = [mk_Tx 1 Deposit (Fin 762939453125 17) ''initial'',
                                 mk_Tx 1 Withdraw (Fin 762939453125 17) ''to 2: manual'',
                                 mk_Tx 1 Deposit (Fin 762939453125 17) ''undo transfer'']\<rparr>],
       bank_log = [mk_Tx 1 Deposit (Fin 762939453125 17) ''initial'',
                   mk_Tx 2 Deposit (Fin 1 0) ''initial''],
       bank_next = 3\<rparr>)"
  by (simp add: dbank_big_transferred_eq Bank_undo_def undo_pair_def Let_def same_amount_def
      Bank_acc_def Account_withdraw_def Account_deposit_def
      double_positive double_compare double_rounding)

text \<open>
  C5, as the specification has it, fails on the machine's amounts: the undo right after
  the transfer of \<open>10^17\<close> from Alice (who has \<open>10^17\<close>) to Bob (who has \<open>1\<close>) succeeds,
  removes the pair from the log, and leaves Bob with \<open>0\<close>, not with the \<open>1\<close> he had before
  the transfer.
\<close>

theorem undo_after_transfer_loses_balance:
  "balance_of dbank_big 1 = Some (double_of_int 100000000000000000)
   \<and> balance_of dbank_big 2 = Some (double_of_int 1)
   \<and> Bank_transfer dbank_big 1 2 (double_of_int 100000000000000000) ''manual''
        = (Inr (), dbank_big_transferred)
   \<and> bank_log dbank_big_transferred = bank_log dbank_big @
        [mk_Tx 1 TransferOut (double_of_int 100000000000000000) ''to 2'',
         mk_Tx 2 TransferIn (double_of_int 100000000000000000) ''from 1'']
   \<and> is_transfer_pair (mk_Tx 1 TransferOut (double_of_int 100000000000000000) ''to 2'')
        (mk_Tx 2 TransferIn (double_of_int 100000000000000000) ''from 1'')
   \<and> fst (Bank_undo dbank_big_transferred) = Inr ()
   \<and> bank_log (snd (Bank_undo dbank_big_transferred)) = bank_log dbank_big
   \<and> balance_of (snd (Bank_undo dbank_big_transferred)) 1
        = Some (double_of_int 100000000000000000)
   \<and> balance_of (snd (Bank_undo dbank_big_transferred)) 2 = Some 0
   \<and> double_of_int 1 \<noteq> 0
   \<and> balance_of (snd (Bank_undo dbank_big_transferred)) 2 \<noteq> balance_of dbank_big 2"
  unfolding undo_dbank_big_transferred transfer_dbank_big
  by (simp add: dbank_big_eq dbank_big_transferred_eq balance_of_def is_transfer_pair_def
      same_amount_def double_values double_compare zero_double_def)

text \<open>
  The same on a bank whose amounts are not numbers: after a transfer of NaN the undo
  removes the \<open>TransferIn\<close> entry only, and the \<open>TransferOut\<close> entry stays at the tail of
  the log.
\<close>

lemma undo_after_nan_transfer:
  "Bank_transfer dbank_alice_bob 1 2 NaN ''manual'' = (Inr (), dbank_nan_transferred)
   \<and> fst (Bank_undo dbank_nan_transferred) = Inr ()
   \<and> bank_log (snd (Bank_undo dbank_nan_transferred)) =
        bank_log dbank_alice_bob @ [mk_Tx 1 TransferOut NaN ''to 2'']
   \<and> balance_of (snd (Bank_undo dbank_nan_transferred)) 1 = Some NaN
   \<and> balance_of (snd (Bank_undo dbank_nan_transferred)) 2 = Some NaN"
proof -
  have nan: "\<not> NaN \<le> (0::double)" "\<not> Fin 25 2 < NaN" "\<not> NaN < NaN" "\<not> NaN \<le> NaN"
    "Fin 25 2 - NaN = NaN" "0 + NaN = NaN" "NaN - NaN = NaN"
    by code_simp+
  have eq: "dbank_nan_transferred =
     \<lparr>bank_a = [1 \<mapsto> \<lparr>acc_id = 1, owner = ''Alice'', bal = NaN,
                        hist = [mk_Tx 1 Deposit (Fin 25 2) ''initial'',
                                mk_Tx 1 Withdraw NaN ''to 2: manual'']\<rparr>,
                 2 \<mapsto> \<lparr>acc_id = 2, owner = ''Bob'', bal = NaN,
                        hist = [mk_Tx 2 Deposit NaN ''from 1: manual'']\<rparr>],
      bank_log = [mk_Tx 1 Deposit (Fin 25 2) ''initial'', mk_Tx 1 TransferOut NaN ''to 2'',
                  mk_Tx 2 TransferIn NaN ''from 1''],
      bank_next = 3\<rparr>"
    by (simp add: dbank_nan_transferred_def run_def dbank_alice_bob_eq Bank_transfer_def
        Bank_acc_def Account_withdraw_def Account_deposit_def transfer_note_def
        to_string_1 to_string_2 nan)
  have t: "Bank_transfer dbank_alice_bob 1 2 NaN ''manual'' = (Inr (), dbank_nan_transferred)"
    by (simp add: eq dbank_alice_bob_eq Bank_transfer_def
        Bank_acc_def Account_withdraw_def Account_deposit_def transfer_note_def
        to_string_1 to_string_2 nan)
  have "\<not> same_amount NaN NaN"
    by (simp add: same_amount_def nan)
  from undo_after_transfer_not_a_number [OF t this]
  have "Bank_undo dbank_nan_transferred
      = undo_single dbank_nan_transferred (mk_Tx 2 TransferIn NaN ''from 1'')"
    by (simp add: to_string_1)
  then have "fst (Bank_undo dbank_nan_transferred) = Inr ()
   \<and> bank_log (snd (Bank_undo dbank_nan_transferred)) =
        bank_log dbank_alice_bob @ [mk_Tx 1 TransferOut NaN ''to 2'']
   \<and> balance_of (snd (Bank_undo dbank_nan_transferred)) 1 = Some NaN
   \<and> balance_of (snd (Bank_undo dbank_nan_transferred)) 2 = Some NaN"
    by (simp add: undo_single_def eq dbank_alice_bob_eq Bank_acc_def increases_def
        Account_withdraw_def balance_of_def nan)
  with t show ?thesis by simp
qed

text \<open>
  C5, amended.  When the last two entries of the global log are a matched transfer pair (a
  \<open>TransferOut\<close> entry \<open>p\<close>, then a \<open>TransferIn\<close> entry \<open>q\<close> of the same amount), a
  successful undo has withdrawn the amount from the account of \<open>q\<close> and then deposited it
  to the account of \<open>p\<close>, both with the note \<open>undo transfer\<close>, and has removed exactly
  these two entries from the log; nothing else of the bank has changed.  Right after a
  successful transfer of an amount \<open>v\<close> that is a number (\<open>v == v\<close>) from an account with
  balance \<open>a\<close> to an account with balance \<open>b\<close>, the undo succeeds exactly when \<open>b + v < v\<close>
  is false; a successful one leaves the source with \<open>(a - v) + v\<close>, the destination with
  \<open>(b + v) - v\<close>, each as the machine computes it, and the log of before the transfer.  So
  a balance is the one of before the transfer exactly when its round trip is exact.  No
  law of arithmetic is assumed: the statement holds of the machine's amounts.
\<close>

theorem undo_transfer_pair:
  fixes b b0 :: "'a::{zero,ord,plus,minus} Bank"
  shows "(bank_log b = l @ [p, q] \<and> is_transfer_pair p q \<and> Bank_undo b = (Inr (), b') \<longrightarrow>
            (\<exists>T T' F F'. bank_a b (tx_acc q) = Some T
               \<and> Account_withdraw T (tx_amt q) ''undo transfer'' = Inr T'
               \<and> ((bank_a b)(tx_acc q \<mapsto> T')) (tx_acc p) = Some F
               \<and> Account_deposit F (tx_amt q) ''undo transfer'' = Inr F'
               \<and> b' = b\<lparr>bank_a := (bank_a b)(tx_acc q \<mapsto> T', tx_acc p \<mapsto> F'),
                        bank_log := l\<rparr>))
       \<and> (Bank_transfer b0 src dst v n = (Inr (), b1) \<and> same_amount v v \<longrightarrow>
            (\<exists>A B. bank_a b0 src = Some A \<and> bank_a b0 dst = Some B
               \<and> ((\<exists>b2. Bank_undo b1 = (Inr (), b2)) \<longleftrightarrow> \<not> bal B + v < v)
               \<and> (Bank_undo b1 = (Inr (), b2) \<longrightarrow>
                     balance_of b2 src = Some (bal A - v + v)
                   \<and> balance_of b2 dst = Some (bal B + v - v)
                   \<and> (balance_of b2 src = balance_of b0 src \<longleftrightarrow> bal A - v + v = bal A)
                   \<and> (balance_of b2 dst = balance_of b0 dst \<longleftrightarrow> bal B + v - v = bal B)
                   \<and> bank_log b2 = bank_log b0)))"
proof -
  have pair: "\<exists>T T' F F'. bank_a b (tx_acc q) = Some T
               \<and> Account_withdraw T (tx_amt q) ''undo transfer'' = Inr T'
               \<and> ((bank_a b)(tx_acc q \<mapsto> T')) (tx_acc p) = Some F
               \<and> Account_deposit F (tx_amt q) ''undo transfer'' = Inr F'
               \<and> b' = b\<lparr>bank_a := (bank_a b)(tx_acc q \<mapsto> T', tx_acc p \<mapsto> F'),
                        bank_log := l\<rparr>"
    if a: "bank_log b = l @ [p, q] \<and> is_transfer_pair p q \<and> Bank_undo b = (Inr (), b')"
  proof -
    from a have "undo_pair b p q = (Inr (), b')"
      using undo_is_pair [of b l p q] by simp
    from undo_pair_Inr [OF this] a show ?thesis
      by (simp add: butlast2_snoc2)
  qed
  from pair undo_after_transfer_balances [of b0 src dst v n b1 b2]
  show ?thesis by blast
qed

theorem undo_transfer_pair_witness:
  "Bank_transfer dbank_alice_bob 1 2 (double_of_int 40) ''manual'' = (Inr (), dbank_transferred)
   \<and> same_amount (double_of_int 40) (double_of_int 40)
   \<and> bank_log dbank_transferred =
        [mk_Tx 1 Deposit (double_of_int 100) ''initial''] @
        [mk_Tx 1 TransferOut (double_of_int 40) ''to 2'',
         mk_Tx 2 TransferIn (double_of_int 40) ''from 1'']
   \<and> is_transfer_pair (mk_Tx 1 TransferOut (double_of_int 40) ''to 2'')
        (mk_Tx 2 TransferIn (double_of_int 40) ''from 1'')
   \<and> (\<exists>b2. Bank_undo dbank_transferred = (Inr (), b2)
         \<and> balance_of b2 1 = Some (double_of_int 100) \<and> balance_of b2 2 = Some 0
         \<and> balance_of b2 1 = balance_of dbank_alice_bob 1
         \<and> balance_of b2 2 = balance_of dbank_alice_bob 2
         \<and> bank_log b2 = [mk_Tx 1 Deposit (double_of_int 100) ''initial'']
         \<and> history_of b2 1 = Some [mk_Tx 1 Deposit (double_of_int 100) ''initial'',
              mk_Tx 1 Withdraw (double_of_int 40) ''to 2: manual'',
              mk_Tx 1 Deposit (double_of_int 40) ''undo transfer'']
         \<and> history_of b2 2 = Some [mk_Tx 2 Deposit (double_of_int 40) ''from 1: manual'',
              mk_Tx 2 Withdraw (double_of_int 40) ''undo transfer''])"
proof -
  let ?p = "mk_Tx 1 TransferOut (Fin 5 3) ''to 2''"
  let ?q = "mk_Tx 2 TransferIn (Fin 5 3) ''from 1''"
  let ?l = "[mk_Tx 1 Deposit (Fin 25 2) ''initial'']"
  have t: "Bank_transfer dbank_alice_bob 1 2 (Fin 5 3) ''manual'' = (Inr (), dbank_transferred)"
    by (simp add: dbank_transferred_eq dbank_alice_bob_eq Bank_transfer_def Bank_acc_def
        Account_withdraw_def Account_deposit_def transfer_note_def to_string_1 to_string_2
        double_positive double_compare double_sums)
  have sv: "same_amount (Fin 5 3) (Fin 5 3)"
    by (simp add: same_amount_def double_compare)
  have log: "bank_log dbank_transferred = ?l @ [?p, ?q]"
    by (simp add: dbank_transferred_eq)
  have pair: "is_transfer_pair ?p ?q"
    by (simp add: is_transfer_pair_def sv)
  have alice: "bank_a dbank_alice_bob 1 = Some A \<longleftrightarrow>
      A = \<lparr>acc_id = 1, owner = ''Alice'', bal = Fin 25 2,
           hist = [mk_Tx 1 Deposit (Fin 25 2) ''initial'']\<rparr>" for A
    by (auto simp: dbank_alice_bob_eq)
  have bob: "bank_a dbank_alice_bob 2 = Some B \<longleftrightarrow>
      B = \<lparr>acc_id = 2, owner = ''Bob'', bal = 0, hist = []\<rparr>" for B
    by (auto simp: dbank_alice_bob_eq)
  note inst = undo_transfer_pair [where b = dbank_transferred and l = ?l and p = ?p and q = ?q
      and ?b0.0 = dbank_alice_bob and src = 1 and dst = 2 and v = "Fin 5 3" and n = "''manual''"
      and ?b1.0 = dbank_transferred]
  from inst [where b' = dbank_transferred and ?b2.0 = dbank_transferred] t sv
  have "\<exists>A B. bank_a dbank_alice_bob 1 = Some A \<and> bank_a dbank_alice_bob 2 = Some B
      \<and> ((\<exists>b2. Bank_undo dbank_transferred = (Inr (), b2)) \<longleftrightarrow> \<not> bal B + Fin 5 3 < Fin 5 3)"
    by blast
  then have "(\<exists>b2. Bank_undo dbank_transferred = (Inr (), b2))"
    by (simp add: alice bob double_sums double_compare)
  then obtain b2 where u: "Bank_undo dbank_transferred = (Inr (), b2)" ..
  from inst [where b' = b2 and ?b2.0 = b2] t sv u log pair
  have g: "\<exists>A B. bank_a dbank_alice_bob 1 = Some A \<and> bank_a dbank_alice_bob 2 = Some B
               \<and> balance_of b2 1 = Some (bal A - Fin 5 3 + Fin 5 3)
               \<and> balance_of b2 2 = Some (bal B + Fin 5 3 - Fin 5 3)
               \<and> (balance_of b2 1 = balance_of dbank_alice_bob 1
                    \<longleftrightarrow> bal A - Fin 5 3 + Fin 5 3 = bal A)
               \<and> (balance_of b2 2 = balance_of dbank_alice_bob 2
                    \<longleftrightarrow> bal B + Fin 5 3 - Fin 5 3 = bal B)
               \<and> bank_log b2 = bank_log dbank_alice_bob"
    and e: "\<exists>T T' F F'. bank_a dbank_transferred (tx_acc ?q) = Some T
               \<and> Account_withdraw T (tx_amt ?q) ''undo transfer'' = Inr T'
               \<and> ((bank_a dbank_transferred)(tx_acc ?q \<mapsto> T')) (tx_acc ?p) = Some F
               \<and> Account_deposit F (tx_amt ?q) ''undo transfer'' = Inr F'
               \<and> b2 = dbank_transferred\<lparr>bank_a :=
                    (bank_a dbank_transferred)(tx_acc ?q \<mapsto> T', tx_acc ?p \<mapsto> F'),
                        bank_log := ?l\<rparr>"
    by blast+
  from e have h: "history_of b2 1 = Some [mk_Tx 1 Deposit (Fin 25 2) ''initial'',
              mk_Tx 1 Withdraw (Fin 5 3) ''to 2: manual'',
              mk_Tx 1 Deposit (Fin 5 3) ''undo transfer'']
         \<and> history_of b2 2 = Some [mk_Tx 2 Deposit (Fin 5 3) ''from 1: manual'',
              mk_Tx 2 Withdraw (Fin 5 3) ''undo transfer'']"
    by (auto simp: dbank_transferred_eq history_of_def Account_withdraw_def Account_deposit_def
        split: if_splits)
  from g have g': "balance_of b2 1 = Some (Fin 25 2) \<and> balance_of b2 2 = Some 0
         \<and> balance_of b2 1 = balance_of dbank_alice_bob 1
         \<and> balance_of b2 2 = balance_of dbank_alice_bob 2
         \<and> bank_log b2 = [mk_Tx 1 Deposit (Fin 25 2) ''initial'']"
    by (simp add: alice bob double_sums) (simp add: dbank_alice_bob_eq balance_of_def)
  from t sv log pair u h g' show ?thesis
    unfolding double_values by blast
qed

section \<open>C6: a transfer pair whose undo fails\<close>

text \<open>
  In the pair branch of undo the deposit is made with the amount the withdrawal has just
  accepted, to an account the log names.  In a reachable bank the log names only accounts
  of the bank, so the deposit cannot fail: a failed undo of a pair is a failed withdrawal
  and has changed nothing.

  C6.  In a reachable bank whose log ends with a matched transfer pair, an undo that
  fails has changed nothing: the bank returned is the bank passed in, so no log entry is
  removed and no balance has changed.  The failure is that of the withdrawal from the
  account of the \<open>TransferIn\<close> entry, whose message is returned.  No law of arithmetic is
  assumed.
\<close>

theorem undo_pair_failure_changes_nothing:
  fixes b :: "'a::{zero,ord,plus,minus} Bank"
  assumes "reachable b" "bank_log b = l @ [p, q]" "is_transfer_pair p q"
    and "Bank_undo b = (Inl m, b')"
  shows "b' = b \<and> (\<exists>T e. bank_a b (tx_acc q) = Some T
           \<and> Account_withdraw T (tx_amt q) ''undo transfer'' = Inl e \<and> m = what e)"
proof -
  from assms(1) have "log_accounts_present b"
    unfolding reachable_def by (rule reachable_log_accounts_present)
  with assms(2) have present: "bank_a b (tx_acc p) \<noteq> None" "bank_a b (tx_acc q) \<noteq> None"
    by (simp_all add: log_accounts_present_def)
  from assms(2,3) have "Bank_undo b = undo_pair b p q"
    by (rule undo_is_pair)
  with assms(4) have "undo_pair b p q = (Inl m, b')" by simp
  from undo_pair_Inl_present [OF this present] show ?thesis .
qed

theorem undo_pair_failure_changes_nothing_witness:
  "reachable bank_drained
   \<and> bank_log bank_drained =
        [mk_Tx 1 Deposit 100 ''initial''] @
        [mk_Tx 1 TransferOut 40 ''to 2'', mk_Tx 2 TransferIn 40 ''from 1'']
   \<and> is_transfer_pair (mk_Tx 1 TransferOut (40::real) ''to 2'') (mk_Tx 2 TransferIn 40 ''from 1'')
   \<and> fst (Bank_undo bank_drained) = Inl ''insufficient''
   \<and> snd (Bank_undo bank_drained) = bank_drained
   \<and> balance_of (snd (Bank_undo bank_drained)) 1 = Some 60
   \<and> balance_of (snd (Bank_undo bank_drained)) 2 = Some 0"
proof -
  let ?p = "mk_Tx 1 TransferOut (40::real) ''to 2''"
  let ?q = "mk_Tx 2 TransferIn (40::real) ''from 1''"
  let ?l = "[mk_Tx 1 Deposit (100::real) ''initial'']"
  have log: "bank_log bank_drained = ?l @ [?p, ?q]"
    by (simp add: bank_drained_eq)
  have pair: "is_transfer_pair ?p ?q"
    by (simp add: is_transfer_pair_def same_amount_def)
  have "Bank_undo bank_drained = undo_pair bank_drained ?p ?q"
    using log pair by (rule undo_is_pair)
  then have fails: "fst (Bank_undo bank_drained) = Inl ''insufficient''"
    by (simp add: undo_pair_def bank_drained_eq Bank_acc_def Account_withdraw_def)
  then have u: "Bank_undo bank_drained = (Inl ''insufficient'', snd (Bank_undo bank_drained))"
    by (metis prod.collapse)
  from undo_pair_failure_changes_nothing [OF reachable_bank_drained log pair u]
  have same: "snd (Bank_undo bank_drained) = bank_drained" by simp
  have "balance_of bank_drained 1 = Some 60 \<and> balance_of bank_drained 2 = Some 0"
    by (simp add: bank_drained_eq balance_of_def)
  with reachable_bank_drained log pair fails same show ?thesis by simp
qed

section \<open>C7: undo of a single entry\<close>

text \<open>What undo makes of the bank a deposit has just returned, for any arithmetic.\<close>

lemma undo_after_deposit_any:
  assumes d: "Bank_deposit b0 i v n = (Inr (), b1)"
  shows "\<exists>A. bank_a b0 i = Some A
     \<and> Bank_undo b1 =
         (if bal A + v < v then (Inl ''insufficient'', b1)
          else (Inr (), b1\<lparr>bank_a := (bank_a b1)
                  (i \<mapsto> the (bank_a b1 i)\<lparr>bal := bal A + v - v,
                     hist := hist (the (bank_a b1 i)) @
                       [mk_Tx (acc_id A) Withdraw v ''undo'']\<rparr>),
                bank_log := bank_log b0\<rparr>))"
proof -
  from d obtain A where h: "bank_a b0 i = Some A" "\<not> v \<le> 0"
    and b1: "b1 = b0\<lparr>bank_a := (bank_a b0)
                  (i \<mapsto> A\<lparr>bal := bal A + v,
                       hist := hist A @ [mk_Tx (acc_id A) Deposit v n]\<rparr>),
                bank_log := bank_log b0 @ [mk_Tx i Deposit v n]\<rparr>"
    unfolding deposit_Inr_iff by blast
  let ?q = "mk_Tx i Deposit v n"
  have log: "bank_log b1 = bank_log b0 @ [?q]"
    by (simp add: b1)
  have "\<not> (bank_log b0 \<noteq> [] \<and> is_transfer_pair (last (bank_log b0)) ?q)"
    by (simp add: is_transfer_pair_def same_amount_def)
  with log have u: "Bank_undo b1 = undo_single b1 ?q"
    by (rule undo_is_single)
  from h have "undo_single b1 ?q =
         (if bal A + v < v then (Inl ''insufficient'', b1)
          else (Inr (), b1\<lparr>bank_a := (bank_a b1)
                  (i \<mapsto> the (bank_a b1 i)\<lparr>bal := bal A + v - v,
                     hist := hist (the (bank_a b1 i)) @
                       [mk_Tx (acc_id A) Withdraw v ''undo'']\<rparr>),
                bank_log := bank_log b0\<rparr>))"
    by (simp add: undo_single_def Bank_acc_def b1 Account_withdraw_def)
  with h u show ?thesis by simp
qed

lemma undo_after_deposit_balance:
  assumes d: "Bank_deposit b0 i v n = (Inr (), b1)"
  shows "\<exists>A. bank_a b0 i = Some A
       \<and> ((\<exists>b2. Bank_undo b1 = (Inr (), b2)) \<longleftrightarrow> \<not> bal A + v < v)
       \<and> (Bank_undo b1 = (Inr (), b2) \<longrightarrow>
             balance_of b2 i = Some (bal A + v - v)
           \<and> (balance_of b2 i = balance_of b0 i \<longleftrightarrow> bal A + v - v = bal A)
           \<and> bank_log b2 = bank_log b0)"
proof -
  from undo_after_deposit_any [OF d] obtain A where
    h: "bank_a b0 i = Some A"
    and u: "Bank_undo b1 =
         (if bal A + v < v then (Inl ''insufficient'', b1)
          else (Inr (), b1\<lparr>bank_a := (bank_a b1)
                  (i \<mapsto> the (bank_a b1 i)\<lparr>bal := bal A + v - v,
                     hist := hist (the (bank_a b1 i)) @
                       [mk_Tx (acc_id A) Withdraw v ''undo'']\<rparr>),
                bank_log := bank_log b0\<rparr>))"
    by blast
  from u have succ: "(\<exists>b2. Bank_undo b1 = (Inr (), b2)) \<longleftrightarrow> \<not> bal A + v < v"
    by simp
  have after: "balance_of b2 i = Some (bal A + v - v)
           \<and> (balance_of b2 i = balance_of b0 i \<longleftrightarrow> bal A + v - v = bal A)
           \<and> bank_log b2 = bank_log b0" if "Bank_undo b1 = (Inr (), b2)"
    using that u h by (auto simp: balance_of_def split: if_splits)
  from h succ after show ?thesis by blast
qed

text \<open>
  With exact ordered arithmetic the balance is that of before the deposit, and the undo
  does succeed when that balance was not negative.
\<close>

lemma undo_after_deposit_exact:
  fixes c0 :: "'a::linordered_ab_group_add Bank"
  assumes d: "Bank_deposit c0 j w m = (Inr (), c1)"
  shows "(Bank_undo c1 = (Inr (), c2) \<longrightarrow>
            balance_of c2 j = balance_of c0 j \<and> bank_log c2 = bank_log c0)
       \<and> ((\<exists>A. bank_a c0 j = Some A \<and> 0 \<le> bal A) \<longrightarrow> (\<exists>c2. Bank_undo c1 = (Inr (), c2)))"
  using undo_after_deposit_balance [OF d, of c2]
  by (auto simp: not_less)

text \<open>
  The condition on the earlier balance is needed: on an account that
  \<^verbatim>\<open>createChecking\<close> has created overdrawn, the undo of a deposit is refused and the
  deposit stays in the log.
\<close>

lemma undo_after_deposit_overdrawn:
  "fst (Bank_undo (run (Bank_init :: real Bank) [Create ''Eve'' (- 100), Dep 1 10 ''manual'']))
     = Inl ''insufficient''
   \<and> snd (Bank_undo (run (Bank_init :: real Bank) [Create ''Eve'' (- 100), Dep 1 10 ''manual'']))
     = run Bank_init [Create ''Eve'' (- 100), Dep 1 10 ''manual'']"
  by (simp add: run_def Bank_init_def Bank_createChecking_def mk_Account_def Bank_deposit_def
      Bank_acc_def Account_deposit_def Bank_undo_def undo_single_def Account_withdraw_def Let_def)

lemma undo_single_success:
  assumes "bank_log b = l @ [q]" "\<not> (l \<noteq> [] \<and> is_transfer_pair (last l) q)"
    and "Bank_undo b = (Inr (), b')"
  shows "\<exists>A A'. bank_a b (tx_acc q) = Some A
      \<and> (tx_type q = Deposit \<or> tx_type q = TransferIn \<longrightarrow>
           Account_withdraw A (tx_amt q) ''undo'' = Inr A')
      \<and> (tx_type q = Withdraw \<or> tx_type q = TransferOut \<longrightarrow>
           Account_deposit A (tx_amt q) ''undo'' = Inr A')
      \<and> b' = b\<lparr>bank_a := (bank_a b)(tx_acc q \<mapsto> A'), bank_log := l\<rparr>"
proof -
  from assms have "undo_single b q = (Inr (), b')"
    using undo_is_single [of b l q] by simp
  from undo_single_Inr [OF this] obtain A A' where
    h: "bank_a b (tx_acc q) = Some A"
      "(if increases (tx_type q) then Account_withdraw A (tx_amt q) ''undo''
        else Account_deposit A (tx_amt q) ''undo'') = Inr A'"
      "b' = b\<lparr>bank_a := (bank_a b)(tx_acc q \<mapsto> A'), bank_log := butlast (bank_log b)\<rparr>"
    by blast
  from assms(1) have "butlast (bank_log b) = l" by simp
  with h have "bank_a b (tx_acc q) = Some A
      \<and> (tx_type q = Deposit \<or> tx_type q = TransferIn \<longrightarrow>
           Account_withdraw A (tx_amt q) ''undo'' = Inr A')
      \<and> (tx_type q = Withdraw \<or> tx_type q = TransferOut \<longrightarrow>
           Account_deposit A (tx_amt q) ''undo'' = Inr A')
      \<and> b' = b\<lparr>bank_a := (bank_a b)(tx_acc q \<mapsto> A'), bank_log := l\<rparr>"
    by (cases "tx_type q") (simp_all add: increases_def)
  then show ?thesis by blast
qed

text \<open>
  The machine's arithmetic is not exact.  Bob has \<open>1\<close>; a deposit of \<open>10^17\<close> makes his
  balance \<open>1 + 10^17\<close>, rounded to \<open>10^17\<close>; the undo withdraws \<open>10^17\<close> and leaves him \<open>0\<close>.
\<close>

lemma deposit_dbank_big:
  "Bank_deposit dbank_big 2 (double_of_int 100000000000000000) ''manual''
     = (Inr (), dbank_big_deposited)"
  by (simp add: dbank_big_deposited_eq dbank_big_eq Bank_deposit_def Bank_acc_def
      Account_deposit_def double_values double_positive double_rounding)

lemma undo_dbank_big_deposited:
  "Bank_undo dbank_big_deposited =
     (Inr (),
      \<lparr>bank_a = [1 \<mapsto> \<lparr>acc_id = 1, owner = ''Alice'', bal = Fin 762939453125 17,
                         hist = [mk_Tx 1 Deposit (Fin 762939453125 17) ''initial'']\<rparr>,
                  2 \<mapsto> \<lparr>acc_id = 2, owner = ''Bob'', bal = 0,
                         hist = [mk_Tx 2 Deposit (Fin 1 0) ''initial'',
                                 mk_Tx 2 Deposit (Fin 762939453125 17) ''manual'',
                                 mk_Tx 2 Withdraw (Fin 762939453125 17) ''undo'']\<rparr>],
       bank_log = [mk_Tx 1 Deposit (Fin 762939453125 17) ''initial'',
                   mk_Tx 2 Deposit (Fin 1 0) ''initial''],
       bank_next = 3\<rparr>)"
  by (simp add: dbank_big_deposited_eq Bank_undo_def undo_single_def Let_def increases_def
      Bank_acc_def Account_withdraw_def double_positive double_compare double_rounding)

text \<open>
  C7, as the specification has it, fails on the machine's amounts: the undo right after
  the deposit of \<open>10^17\<close> to Bob (who has \<open>1\<close>) succeeds, removes the entry of the deposit
  from the log, and leaves Bob with \<open>0\<close>, not with the \<open>1\<close> he had before the deposit.
\<close>

theorem undo_after_deposit_loses_balance:
  "balance_of dbank_big 2 = Some (double_of_int 1)
   \<and> Bank_deposit dbank_big 2 (double_of_int 100000000000000000) ''manual''
        = (Inr (), dbank_big_deposited)
   \<and> bank_log dbank_big_deposited = bank_log dbank_big @
        [mk_Tx 2 Deposit (double_of_int 100000000000000000) ''manual'']
   \<and> fst (Bank_undo dbank_big_deposited) = Inr ()
   \<and> bank_log (snd (Bank_undo dbank_big_deposited)) = bank_log dbank_big
   \<and> balance_of (snd (Bank_undo dbank_big_deposited)) 2 = Some 0
   \<and> double_of_int 1 \<noteq> 0
   \<and> balance_of (snd (Bank_undo dbank_big_deposited)) 2 \<noteq> balance_of dbank_big 2"
  unfolding undo_dbank_big_deposited deposit_dbank_big
  by (simp add: dbank_big_eq dbank_big_deposited_eq balance_of_def double_values
      zero_double_def)

text \<open>
  C7, amended.  When the global log is not empty and its tail is not a matched transfer
  pair, a successful undo has reversed exactly the last entry \<open>q\<close>: it has withdrawn the
  amount of \<open>q\<close> from the account of \<open>q\<close> when \<open>q\<close> is a \<open>Deposit\<close> or a \<open>TransferIn\<close>, and
  deposited it when \<open>q\<close> is a \<open>Withdraw\<close> or a \<open>TransferOut\<close>, with the note \<open>undo\<close>, and
  has removed exactly that entry from the log; nothing else of the bank has changed.
  Right after a successful deposit of \<open>v\<close> to an account \<open>i\<close> with balance \<open>a\<close>, the undo
  succeeds exactly when \<open>a + v < v\<close> is false; a successful one leaves the account with
  \<open>(a + v) - v\<close>, as the machine computes it, and the log of before the deposit.  So the
  balance is the one of before the deposit exactly when the round trip is exact.  No law of
  arithmetic is assumed: the statement holds of the machine's amounts.
\<close>

theorem undo_single_entry:
  fixes b b0 :: "'a::{zero,ord,plus,minus} Bank"
  shows "(bank_log b = l @ [q] \<and> \<not> (l \<noteq> [] \<and> is_transfer_pair (last l) q)
            \<and> Bank_undo b = (Inr (), b') \<longrightarrow>
            (\<exists>A A'. bank_a b (tx_acc q) = Some A
               \<and> (tx_type q = Deposit \<or> tx_type q = TransferIn \<longrightarrow>
                    Account_withdraw A (tx_amt q) ''undo'' = Inr A')
               \<and> (tx_type q = Withdraw \<or> tx_type q = TransferOut \<longrightarrow>
                    Account_deposit A (tx_amt q) ''undo'' = Inr A')
               \<and> b' = b\<lparr>bank_a := (bank_a b)(tx_acc q \<mapsto> A'), bank_log := l\<rparr>))
       \<and> (Bank_deposit b0 i v n = (Inr (), b1) \<longrightarrow>
            (\<exists>A. bank_a b0 i = Some A
               \<and> ((\<exists>b2. Bank_undo b1 = (Inr (), b2)) \<longleftrightarrow> \<not> bal A + v < v)
               \<and> (Bank_undo b1 = (Inr (), b2) \<longrightarrow>
                     balance_of b2 i = Some (bal A + v - v)
                   \<and> (balance_of b2 i = balance_of b0 i \<longleftrightarrow> bal A + v - v = bal A)
                   \<and> bank_log b2 = bank_log b0)))"
  using undo_single_success [of b l q b'] undo_after_deposit_balance [of b0 i v n b1 b2]
  by blast

theorem undo_single_entry_witness:
  "Bank_deposit dbank_alice_bob 1 (double_of_int 25) ''manual'' = (Inr (), dbank_deposited)
   \<and> bank_log dbank_deposited = [mk_Tx 1 Deposit (double_of_int 100) ''initial''] @
        [mk_Tx 1 Deposit (double_of_int 25) ''manual'']
   \<and> (\<exists>b2. Bank_undo dbank_deposited = (Inr (), b2)
         \<and> balance_of b2 1 = Some (double_of_int 100)
         \<and> balance_of b2 1 = balance_of dbank_alice_bob 1
         \<and> bank_log b2 = [mk_Tx 1 Deposit (double_of_int 100) ''initial'']
         \<and> history_of b2 1 = Some [mk_Tx 1 Deposit (double_of_int 100) ''initial'',
              mk_Tx 1 Deposit (double_of_int 25) ''manual'',
              mk_Tx 1 Withdraw (double_of_int 25) ''undo''])
   \<and> bank_log dbank_withdrawn = [mk_Tx 1 Deposit (double_of_int 100) ''initial''] @
        [mk_Tx 1 Withdraw (double_of_int 30) ''manual'']
   \<and> (\<exists>b2. Bank_undo dbank_withdrawn = (Inr (), b2)
         \<and> balance_of b2 1 = Some (double_of_int 100)
         \<and> bank_log b2 = [mk_Tx 1 Deposit (double_of_int 100) ''initial'']
         \<and> history_of b2 1 = Some [mk_Tx 1 Deposit (double_of_int 100) ''initial'',
              mk_Tx 1 Withdraw (double_of_int 30) ''manual'',
              mk_Tx 1 Deposit (double_of_int 30) ''undo''])"
proof -
  let ?l = "[mk_Tx 1 Deposit (Fin 25 2) ''initial'']"
  let ?d = "mk_Tx 1 Deposit (Fin 25 0) ''manual''"
  let ?w = "mk_Tx 1 Withdraw (Fin 15 1) ''manual''"
  have d: "Bank_deposit dbank_alice_bob 1 (Fin 25 0) ''manual'' = (Inr (), dbank_deposited)"
    by (simp add: dbank_deposited_eq dbank_alice_bob_eq Bank_deposit_def Bank_acc_def
        Account_deposit_def double_positive double_sums fun_upd_twist)
  have logd: "bank_log dbank_deposited = ?l @ [?d]"
    by (simp add: dbank_deposited_eq)
  have nd: "\<not> (?l \<noteq> [] \<and> is_transfer_pair (last ?l) ?d)"
    by (simp add: is_transfer_pair_def)
  have alice: "bank_a dbank_alice_bob 1 = Some A \<longleftrightarrow>
      A = \<lparr>acc_id = 1, owner = ''Alice'', bal = Fin 25 2,
           hist = [mk_Tx 1 Deposit (Fin 25 2) ''initial'']\<rparr>" for A
    by (auto simp: dbank_alice_bob_eq)
  note inst = undo_single_entry [where b = dbank_deposited and l = ?l and q = ?d
      and ?b0.0 = dbank_alice_bob and i = 1 and v = "Fin 25 0" and n = "''manual''"
      and ?b1.0 = dbank_deposited]
  from inst [where b' = dbank_deposited and ?b2.0 = dbank_deposited] d
  have "\<exists>A. bank_a dbank_alice_bob 1 = Some A
      \<and> ((\<exists>b2. Bank_undo dbank_deposited = (Inr (), b2)) \<longleftrightarrow> \<not> bal A + Fin 25 0 < Fin 25 0)"
    by blast
  then have "\<exists>b2. Bank_undo dbank_deposited = (Inr (), b2)"
    by (simp add: alice double_sums double_compare)
  then obtain b2 where u: "Bank_undo dbank_deposited = (Inr (), b2)" ..
  from inst [where b' = b2 and ?b2.0 = b2] d u logd nd
  have g: "\<exists>A. bank_a dbank_alice_bob 1 = Some A
             \<and> balance_of b2 1 = Some (bal A + Fin 25 0 - Fin 25 0)
             \<and> (balance_of b2 1 = balance_of dbank_alice_bob 1
                  \<longleftrightarrow> bal A + Fin 25 0 - Fin 25 0 = bal A)
             \<and> bank_log b2 = bank_log dbank_alice_bob"
    and e: "\<exists>A A'. bank_a dbank_deposited (tx_acc ?d) = Some A
              \<and> (tx_type ?d = Deposit \<or> tx_type ?d = TransferIn \<longrightarrow>
                   Account_withdraw A (tx_amt ?d) ''undo'' = Inr A')
              \<and> (tx_type ?d = Withdraw \<or> tx_type ?d = TransferOut \<longrightarrow>
                   Account_deposit A (tx_amt ?d) ''undo'' = Inr A')
              \<and> b2 = dbank_deposited\<lparr>bank_a := (bank_a dbank_deposited)(tx_acc ?d \<mapsto> A'),
                       bank_log := ?l\<rparr>"
    by blast+
  from e have hd: "history_of b2 1 = Some [mk_Tx 1 Deposit (Fin 25 2) ''initial'',
              mk_Tx 1 Deposit (Fin 25 0) ''manual'', mk_Tx 1 Withdraw (Fin 25 0) ''undo'']"
    by (auto simp: dbank_deposited_eq history_of_def Account_withdraw_def split: if_splits)
  from g have gd: "balance_of b2 1 = Some (Fin 25 2)
         \<and> balance_of b2 1 = balance_of dbank_alice_bob 1
         \<and> bank_log b2 = [mk_Tx 1 Deposit (Fin 25 2) ''initial'']"
    by (simp add: alice double_sums) (simp add: dbank_alice_bob_eq balance_of_def)
  have logw: "bank_log dbank_withdrawn = ?l @ [?w]"
    by (simp add: dbank_withdrawn_eq)
  have nw: "\<not> (?l \<noteq> [] \<and> is_transfer_pair (last ?l) ?w)"
    by (simp add: is_transfer_pair_def)
  have "Bank_undo dbank_withdrawn = undo_single dbank_withdrawn ?w"
    using logw nw by (rule undo_is_single)
  then obtain b3 where u3: "Bank_undo dbank_withdrawn = (Inr (), b3)"
    by (simp add: undo_single_def dbank_withdrawn_eq Bank_acc_def Account_deposit_def
        increases_def double_positive)
  from undo_single_entry [where b = dbank_withdrawn and l = ?l and q = ?w and b' = b3
      and ?b0.0 = dbank_alice_bob] u3 logw nw
  have "\<exists>A A'. bank_a dbank_withdrawn (tx_acc ?w) = Some A
              \<and> (tx_type ?w = Deposit \<or> tx_type ?w = TransferIn \<longrightarrow>
                   Account_withdraw A (tx_amt ?w) ''undo'' = Inr A')
              \<and> (tx_type ?w = Withdraw \<or> tx_type ?w = TransferOut \<longrightarrow>
                   Account_deposit A (tx_amt ?w) ''undo'' = Inr A')
              \<and> b3 = dbank_withdrawn\<lparr>bank_a := (bank_a dbank_withdrawn)(tx_acc ?w \<mapsto> A'),
                       bank_log := ?l\<rparr>"
    by blast
  then have rw: "balance_of b3 1 = Some (Fin 25 2)
         \<and> bank_log b3 = [mk_Tx 1 Deposit (Fin 25 2) ''initial'']
         \<and> history_of b3 1 = Some [mk_Tx 1 Deposit (Fin 25 2) ''initial'',
              mk_Tx 1 Withdraw (Fin 15 1) ''manual'', mk_Tx 1 Deposit (Fin 15 1) ''undo'']"
    by (auto simp: dbank_withdrawn_eq history_of_def balance_of_def Account_deposit_def
        double_sums split: if_splits)
  from d logd u gd hd logw u3 rw show ?thesis
    unfolding double_values by blast
qed

section \<open>C8: undo writes to histories, never to the log\<close>

text \<open>
  C8.  Undo never appends to the global log: whatever the outcome, the log after the
  call is a prefix of the log before it.  After a successful undo the log has lost a
  non-empty suffix \<open>ts\<close> of one or two entries and has gained nothing; every account is
  still there and its history is the old one followed by entries noted \<open>undo\<close> or
  \<open>undo transfer\<close>; and the account of each removed entry has received at least one such
  compensating entry.  The next undo therefore reads a strictly older tail of the original
  log, never the compensation of this one.  No law of arithmetic is assumed.
\<close>

theorem undo_compensation_not_logged:
  fixes b :: "'a::{zero,ord,plus,minus} Bank"
  shows "prefix (bank_log (snd (Bank_undo b))) (bank_log b)
       \<and> (Bank_undo b = (Inr (), b') \<longrightarrow>
            (\<exists>ts. bank_log b = bank_log b' @ ts \<and> ts \<noteq> [] \<and> length ts \<le> 2
               \<and> (\<forall>t \<in> set ts. \<exists>A A' hs. bank_a b (tx_acc t) = Some A
                      \<and> bank_a b' (tx_acc t) = Some A' \<and> hist A' = hist A @ hs \<and> hs \<noteq> []))
            \<and> (\<forall>i A. bank_a b i = Some A \<longrightarrow>
                  (\<exists>A' hs. bank_a b' i = Some A' \<and> hist A' = hist A @ hs \<and> undo_tagged hs)))"
proof -
  have success: "(\<exists>ts. bank_log b = bank_log b' @ ts \<and> ts \<noteq> [] \<and> length ts \<le> 2
               \<and> (\<forall>t \<in> set ts. \<exists>A A' hs. bank_a b (tx_acc t) = Some A
                      \<and> bank_a b' (tx_acc t) = Some A' \<and> hist A' = hist A @ hs \<and> hs \<noteq> []))
            \<and> (\<forall>i A. bank_a b i = Some A \<longrightarrow>
                  (\<exists>A' hs. bank_a b' i = Some A' \<and> hist A' = hist A @ hs \<and> undo_tagged hs))"
    if u: "Bank_undo b = (Inr (), b')"
  proof -
    from u have ne: "bank_log b \<noteq> []"
      by (auto simp: Bank_undo_def)
    let ?q = "last (bank_log b)"
    let ?p = "bank_log b ! (length (bank_log b) - 2)"
    consider (pair) "2 \<le> length (bank_log b)" "undo_pair b ?p ?q = (Inr (), b')"
      | (single) "undo_single b ?q = (Inr (), b')"
      using u ne by (auto simp: Bank_undo_def Let_def split: if_splits)
    then show ?thesis
    proof cases
      case pair
      from undo_pair_Inr [OF pair(2)]
      have log': "bank_log b' = butlast (butlast (bank_log b))" by auto
      from last_two_split [OF pair(1)] log'
      have "bank_log b = bank_log b' @ [?p, ?q]" by simp
      with undo_pair_histories [OF pair(2)] show ?thesis
        by (intro conjI exI [of _ "[?p, ?q]"]) simp_all
    next
      case single
      from undo_single_Inr [OF single]
      have log': "bank_log b' = butlast (bank_log b)" by auto
      with ne have "bank_log b = bank_log b' @ [?q]" by simp
      with undo_single_histories [OF single] show ?thesis
        by (intro conjI exI [of _ "[?q]"]) simp_all
    qed
  qed
  from success undo_log_prefix [of b] show ?thesis by blast
qed

theorem undo_compensation_not_logged_witness:
  "(\<exists>b'. Bank_undo bank_alice = (Inr (), b')
      \<and> prefix (bank_log b') (bank_log bank_alice)
      \<and> bank_log b' = []
      \<and> bank_log bank_alice = bank_log b' @ [mk_Tx 1 Deposit 100 ''initial'']
      \<and> balance_of b' 1 = Some 0
      \<and> history_of b' 1 =
           Some ([mk_Tx 1 Deposit 100 ''initial''] @ [mk_Tx 1 Withdraw 100 ''undo''])
      \<and> undo_tagged [mk_Tx 1 Withdraw (100::real) ''undo''])"
proof -
  let ?A = "\<lparr>acc_id = 1, owner = ''Alice'', bal = 100::real,
             hist = [mk_Tx 1 Deposit 100 ''initial'']\<rparr>"
  let ?A' = "\<lparr>acc_id = 1, owner = ''Alice'', bal = 0::real,
              hist = [mk_Tx 1 Deposit 100 ''initial'', mk_Tx 1 Withdraw 100 ''undo'']\<rparr>"
  let ?b' = "\<lparr>bank_a = [1 \<mapsto> ?A'], bank_log = [], bank_next = 2\<rparr> :: real Bank"
  have u: "Bank_undo bank_alice = (Inr (), ?b')"
    by (simp add: Bank_undo_def undo_single_def bank_alice_eq Bank_acc_def Account_withdraw_def)
  have a: "bank_a bank_alice 1 = Some ?A"
    by (simp add: bank_alice_eq)
  from undo_compensation_not_logged [of bank_alice ?b'] u
  have p: "prefix (bank_log (snd (Bank_undo bank_alice))) (bank_log bank_alice)"
    and h: "\<forall>i A. bank_a bank_alice i = Some A \<longrightarrow>
           (\<exists>A' hs. bank_a ?b' i = Some A' \<and> hist A' = hist A @ hs \<and> undo_tagged hs)"
    by blast+
  from h a obtain A' hs where
    "bank_a ?b' 1 = Some A'" "hist A' = hist ?A @ hs" "undo_tagged hs"
    by blast
  then have "undo_tagged [mk_Tx 1 Withdraw (100::real) ''undo'']"
    by auto
  moreover from p u have "prefix (bank_log ?b') (bank_log bank_alice)"
    by simp
  moreover have "bank_log bank_alice = bank_log ?b' @ [mk_Tx 1 Deposit 100 ''initial'']"
    by (simp add: bank_alice_eq)
  ultimately show ?thesis using u
    by (intro exI [of _ ?b']) (simp add: balance_of_def history_of_def)
qed

section \<open>C9: the entries of the global log\<close>









section \<open>C10: undo on an empty log\<close>

text \<open>
  C10.  Undo called when the global log is empty fails with the message
  \<open>nothing to undo\<close> and changes nothing: the bank returned is the bank passed in, so no
  balance, no account history and no log entry differs.  No law of arithmetic is assumed.
\<close>

theorem undo_empty_log:
  fixes b :: "'a::{zero,ord,plus,minus} Bank"
  assumes "bank_log b = []"
  shows "Bank_undo b = (Inl ''nothing to undo'', b)"
  using assms by (simp add: Bank_undo_def)

theorem undo_empty_log_witness:
  "bank_log (Bank_init :: real Bank) = []
   \<and> Bank_undo (Bank_init :: real Bank) = (Inl ''nothing to undo'', Bank_init)"
  using undo_empty_log [of "Bank_init :: real Bank"] by (simp add: Bank_init_def)

end
